theory Spec2Isabelle
  imports Main
begin

section \<open>The Weaviate vector store adapter\<close>

text \<open>
  A shallow embedding of \<^verbatim>\<open>src/mirascope/weaviate/vectorstores.py\<close>, the class
  \<^verbatim>\<open>WeaviateVectorStore\<close>. The adapter is glue over the Weaviate client library, so
  the library is a parameter of the model: every call into it is answered by a
  function of the arguments and of the history of calls made so far, and is appended to
  that history. Nothing is assumed about the answers; any call may raise.
\<close>

subsection \<open>Data\<close>

text \<open>Keyword arguments and property dictionaries, in insertion order.\<close>

type_synonym kwargs = "(string \<times> string) list"

text \<open>\<^verbatim>\<open>mirascope.rag.types.Document\<close>: the attributes \<^verbatim>\<open>text\<close> and \<^verbatim>\<open>id\<close> the adapter reads.\<close>

record document =
  doc_text :: string
  doc_id :: string

text \<open>\<^verbatim>\<open>wvc.data.DataObject(properties=..., uuid=...)\<close>.\<close>

record data_object =
  properties :: kwargs
  uuid :: string

text \<open>An object of a query result, and the \<^verbatim>\<open>objects\<close> attribute of the result itself.\<close>

record weaviate_object =
  object_properties :: kwargs
  object_uuid :: string

record query_return =
  objects :: "weaviate_object list"

text \<open>\<^verbatim>\<open>WeaviateQueryResult\<close>, as \<^verbatim>\<open>from_response\<close> builds it; the adapter only returns it.\<close>

record weaviate_query_result =
  result_fields :: kwargs

text \<open>
  \<^verbatim>\<open>WeaviateSettings\<close> and \<^verbatim>\<open>WeaviateParams\<close>: the attribute the adapter reads or
  updates (\<^verbatim>\<open>mode\<close>, \<^verbatim>\<open>name\<close>) and the remaining fields, which it only passes on.
\<close>

record weaviate_settings =
  mode :: string
  settings_fields :: kwargs

record weaviate_params =
  name :: "string option"
  params_fields :: kwargs

text \<open>
  Exceptions. \<open>IndexError\<close>, \<open>AttributeError\<close> and \<open>TypeError\<close> are the three the
  interpreter raises inside the adapter itself (an index out of range, an attribute of
  \<^verbatim>\<open>None\<close>, a keyword argument given twice in one call); \<open>Raised\<close> stands for any
  other exception of the code the adapter calls.
\<close>

datatype exn = IndexError | AttributeError | TypeError | Raised string

text \<open>
  What \<^verbatim>\<open>_client\<close> evaluates to: a client handle, or \<^verbatim>\<open>None\<close> when the function
  body ends without a \<^verbatim>\<open>return\<close>.
\<close>

datatype client_val = NoneClient | WeaviateClient nat

text \<open>What \<^verbatim>\<open>add\<close> hands back: the value of \<^verbatim>\<open>insert\<close> or of \<^verbatim>\<open>insert_many\<close>.\<close>

datatype add_return = InsertReturn string | InsertManyReturn "string list"

text \<open>The first parameter of \<^verbatim>\<open>add\<close>, \<^verbatim>\<open>Union[str, list[Document]]\<close>.\<close>

datatype add_input = Str string | Docs "document list"

subsection \<open>The code the adapter calls\<close>

text \<open>
  One constructor for each call that leaves the adapter, with its arguments. A client is
  named by its handle, a collection by its handle.
\<close>

datatype call =
    ChunkerChunk string
  | ConnectToLocal kwargs
  | ConnectToEmbedded kwargs
  | ConnectToWeaviateCloud kwargs
  | ConnectToCustom kwargs
  | CollectionsExists nat "string option"
  | CollectionsGet nat "string option"
  | CollectionsCreate nat kwargs
  | DataInsert nat kwargs string kwargs
  | DataInsertMany nat "data_object list"
  | QueryNearText nat string kwargs
  | ClientClose nat

text \<open>
  The Weaviate client library and the methods of \<^verbatim>\<open>mirascope.weaviate.types\<close>, neither
  of which is part of the file: parameters of the model. Each library function sees the
  calls made before it.
\<close>

record externals =
  connect_to_local :: "call list \<Rightarrow> kwargs \<Rightarrow> exn + nat"
  connect_to_embedded :: "call list \<Rightarrow> kwargs \<Rightarrow> exn + nat"
  connect_to_weaviate_cloud :: "call list \<Rightarrow> kwargs \<Rightarrow> exn + nat"
  connect_to_custom :: "call list \<Rightarrow> kwargs \<Rightarrow> exn + nat"
  collections_exists :: "call list \<Rightarrow> nat \<Rightarrow> string option \<Rightarrow> exn + bool"
  collections_get :: "call list \<Rightarrow> nat \<Rightarrow> string option \<Rightarrow> exn + nat"
  collections_create :: "call list \<Rightarrow> nat \<Rightarrow> kwargs \<Rightarrow> exn + nat"
  data_insert :: "call list \<Rightarrow> nat \<Rightarrow> kwargs \<Rightarrow> string \<Rightarrow> kwargs \<Rightarrow> exn + string"
  data_insert_many :: "call list \<Rightarrow> nat \<Rightarrow> data_object list \<Rightarrow> exn + string list"
  query_near_text :: "call list \<Rightarrow> nat \<Rightarrow> string \<Rightarrow> kwargs \<Rightarrow> exn + query_return"
  client_close :: "call list \<Rightarrow> nat \<Rightarrow> exn + unit"
  settings_kwargs :: "weaviate_settings \<Rightarrow> kwargs"
  params_kwargs :: "weaviate_params \<Rightarrow> kwargs"
  from_response :: "weaviate_object \<Rightarrow> exn + weaviate_query_result"

subsection \<open>The store\<close>

text \<open>
  The attributes of an instance: the configuration (\<^verbatim>\<open>chunker\<close>, \<^verbatim>\<open>index_name\<close>,
  \<^verbatim>\<open>client_settings\<close>, \<^verbatim>\<open>vectorstore_params\<close>) and the two entries that
  \<^verbatim>\<open>cached_property\<close> keeps in the instance dictionary, absent until computed.
\<close>

record store =
  chunker :: "call list \<Rightarrow> string \<Rightarrow> exn + document list"
  index_name :: "string option"
  client_settings :: weaviate_settings
  vectorstore_params :: weaviate_params
  cached_client :: "client_val option"
  cached_index :: "nat option"

text \<open>A method run: the value or the exception, the instance afterwards, the calls made.\<close>

type_synonym 'a outcome = "(exn + 'a) \<times> store \<times> call list"

text \<open>
  \<^verbatim>\<open>functools.cached_property\<close>: look the attribute up in the instance dictionary; when
  it is absent run the function and store its value. A function that raises stores
  nothing.
\<close>

definition cached_property ::
  "(store \<Rightarrow> 'a option) \<Rightarrow> ('a \<Rightarrow> store \<Rightarrow> store) \<Rightarrow>
   (store \<Rightarrow> call list \<Rightarrow> 'a outcome) \<Rightarrow> store \<Rightarrow> call list \<Rightarrow> 'a outcome" where
  "cached_property lookup remember func s w =
     (case lookup s of
        Some val \<Rightarrow> (Inr val, s, w)
      | None \<Rightarrow>
          (case func s w of
             (Inl e, s', w') \<Rightarrow> (Inl e, s', w')
           | (Inr val, s', w') \<Rightarrow> (Inr val, remember val s', w')))"

text \<open>
  \<open>has_key kw k\<close>: the keyword arguments \<^verbatim>\<open>**kwargs\<close> hold the name \<open>k\<close>. A call
  \<^verbatim>\<open>f(k=v, **kwargs)\<close> whose \<^verbatim>\<open>kwargs\<close> hold \<open>k\<close> raises \<open>TypeError\<close> (multiple values
  for the keyword argument) once the callee and the explicit arguments are evaluated,
  and \<^verbatim>\<open>f\<close> is not called.
\<close>

definition has_key :: "kwargs \<Rightarrow> string \<Rightarrow> bool" where
  "has_key kw k = (k \<in> set (map fst kw))"

text \<open>Python truth of an \<^verbatim>\<open>Optional[str]\<close>: neither \<^verbatim>\<open>None\<close> nor the empty string.\<close>

fun truthy :: "string option \<Rightarrow> bool" where
  "truthy None = False"
| "truthy (Some n) = (n \<noteq> [])"

text \<open>The body of \<^verbatim>\<open>_client\<close> (lines 85 to 93).\<close>

definition client_func :: "externals \<Rightarrow> store \<Rightarrow> call list \<Rightarrow> client_val outcome" where
  "client_func ext s w =
     (let kw = settings_kwargs ext (client_settings s) in
      if mode (client_settings s) = ''local'' then
        (map_sum id WeaviateClient (connect_to_local ext w kw), s, w @ [ConnectToLocal kw])
      else if mode (client_settings s) = ''embedded'' then
        (map_sum id WeaviateClient (connect_to_embedded ext w kw), s, w @ [ConnectToEmbedded kw])
      else if mode (client_settings s) = ''cloud'' then
        (map_sum id WeaviateClient (connect_to_weaviate_cloud ext w kw), s,
         w @ [ConnectToWeaviateCloud kw])
      else if mode (client_settings s) = ''custom'' then
        (map_sum id WeaviateClient (connect_to_custom ext w kw), s, w @ [ConnectToCustom kw])
      else (Inr NoneClient, s, w))"

text \<open>The property \<^verbatim>\<open>_client\<close>: that body under \<^verbatim>\<open>@cached_property\<close> (line 84).\<close>

definition client_prop :: "externals \<Rightarrow> store \<Rightarrow> call list \<Rightarrow> client_val outcome" where
  "client_prop ext =
     cached_property cached_client (\<lambda>v s. s\<lparr>cached_client := Some v\<rparr>) (client_func ext)"

text \<open>
  \<^verbatim>\<open>self._client.collections\<close>: the attribute of a client handle, an
  \<open>AttributeError\<close> on \<^verbatim>\<open>None\<close>.
\<close>

definition client_collections :: "externals \<Rightarrow> store \<Rightarrow> call list \<Rightarrow> nat outcome" where
  "client_collections ext s w =
     (case client_prop ext s w of
        (Inl e, s', w') \<Rightarrow> (Inl e, s', w')
      | (Inr NoneClient, s', w') \<Rightarrow> (Inl AttributeError, s', w')
      | (Inr (WeaviateClient c), s', w') \<Rightarrow> (Inr c, s', w'))"

text \<open>
  Lines 97 to 102 of \<^verbatim>\<open>_index\<close>: the parameters, with \<^verbatim>\<open>name\<close> replaced by
  \<^verbatim>\<open>index_name\<close> when that is true in Python's sense.
\<close>

definition index_params :: "store \<Rightarrow> weaviate_params" where
  "index_params s =
     (if truthy (index_name s) then (vectorstore_params s)\<lparr>name := index_name s\<rparr>
      else vectorstore_params s)"

text \<open>
  The body of \<^verbatim>\<open>_index\<close> (lines 96 to 106). \<^verbatim>\<open>self._client\<close> is read once for
  \<^verbatim>\<open>exists\<close> and once more for \<^verbatim>\<open>get\<close> or \<^verbatim>\<open>create\<close>.
\<close>

definition index_func :: "externals \<Rightarrow> store \<Rightarrow> call list \<Rightarrow> nat outcome" where
  "index_func ext s w =
     (let params = index_params s in
      case client_collections ext s w of
        (Inl e, s1, w1) \<Rightarrow> (Inl e, s1, w1)
      | (Inr c, s1, w1) \<Rightarrow>
          (case collections_exists ext w1 c (index_name s) of
             Inl e \<Rightarrow> (Inl e, s1, w1 @ [CollectionsExists c (index_name s)])
           | Inr found \<Rightarrow>
               (let w2 = w1 @ [CollectionsExists c (index_name s)] in
                if found then
                  (case client_collections ext s1 w2 of
                     (Inl e, s3, w3) \<Rightarrow> (Inl e, s3, w3)
                   | (Inr c', s3, w3) \<Rightarrow>
                       (collections_get ext w3 c' (index_name s), s3,
                        w3 @ [CollectionsGet c' (index_name s)]))
                else
                  (case client_collections ext s1 w2 of
                     (Inl e, s3, w3) \<Rightarrow> (Inl e, s3, w3)
                   | (Inr c', s3, w3) \<Rightarrow>
                       (collections_create ext w3 c' (params_kwargs ext params), s3,
                        w3 @ [CollectionsCreate c' (params_kwargs ext params)])))))"

text \<open>The property \<^verbatim>\<open>_index\<close>: that body under \<^verbatim>\<open>@cached_property\<close> (line 95).\<close>

definition index_prop :: "externals \<Rightarrow> store \<Rightarrow> call list \<Rightarrow> nat outcome" where
  "index_prop ext =
     cached_property cached_index (\<lambda>v s. s\<lparr>cached_index := Some v\<rparr>) (index_func ext)"

text \<open>The loop of lines 63 to 68: one \<^verbatim>\<open>DataObject\<close> appended per document.\<close>

fun data_objects_loop :: "data_object list \<Rightarrow> document list \<Rightarrow> data_object list" where
  "data_objects_loop data_objects [] = data_objects"
| "data_objects_loop data_objects (d # documents) =
     data_objects_loop
       (data_objects @ [\<lparr>properties = [(''text'', doc_text d)], uuid = doc_id d\<rparr>]) documents"

text \<open>
  Lines 56 to 70 of \<^verbatim>\<open>add\<close>. In the call of line 57 the callee
  \<^verbatim>\<open>self._index.data.insert\<close> is evaluated before the arguments, so the collection is
  looked up before \<^verbatim>\<open>documents[0]\<close> is read; \<^verbatim>\<open>**kwargs\<close> is merged last, and
  \<^verbatim>\<open>insert\<close> is not called when it repeats \<^verbatim>\<open>properties\<close> or \<^verbatim>\<open>uuid\<close>. Line 70
  does not pass \<^verbatim>\<open>kwargs\<close> on.
\<close>

definition add_documents ::
  "externals \<Rightarrow> store \<Rightarrow> document list \<Rightarrow> kwargs \<Rightarrow> call list \<Rightarrow> add_return outcome" where
  "add_documents ext s documents kw w =
     (if length documents < 2 then
        (case index_prop ext s w of
           (Inl e, s1, w1) \<Rightarrow> (Inl e, s1, w1)
         | (Inr coll, s1, w1) \<Rightarrow>
             (case documents of
                [] \<Rightarrow> (Inl IndexError, s1, w1)
              | d # _ \<Rightarrow>
                  if has_key kw ''properties'' \<or> has_key kw ''uuid'' then
                    (Inl TypeError, s1, w1)
                  else
                    (map_sum id InsertReturn
                       (data_insert ext w1 coll [(''text'', doc_text d)] (doc_id d) kw),
                     s1, w1 @ [DataInsert coll [(''text'', doc_text d)] (doc_id d) kw])))
      else
        (let data_objects = data_objects_loop [] documents in
         case index_prop ext s w of
           (Inl e, s1, w1) \<Rightarrow> (Inl e, s1, w1)
         | (Inr coll, s1, w1) \<Rightarrow>
             (map_sum id InsertManyReturn (data_insert_many ext w1 coll data_objects),
              s1, w1 @ [DataInsertMany coll data_objects])))"

text \<open>
  Lines 49 to 54 of \<^verbatim>\<open>add\<close>: a string is chunked by \<^verbatim>\<open>self.chunker.chunk\<close>, a
  list of documents is taken as it is.
\<close>

fun documents_for ::
  "store \<Rightarrow> add_input \<Rightarrow> call list \<Rightarrow> (exn + document list) \<times> call list" where
  "documents_for s (Str t) w = (chunker s w t, w @ [ChunkerChunk t])"
| "documents_for s (Docs documents) w = (Inr documents, w)"

text \<open>\<^verbatim>\<open>add\<close> (lines 47 to 70).\<close>

definition add ::
  "externals \<Rightarrow> store \<Rightarrow> add_input \<Rightarrow> kwargs \<Rightarrow> call list \<Rightarrow> add_return outcome" where
  "add ext s input kw w =
     (case documents_for s input w of
        (Inl e, w0) \<Rightarrow> (Inl e, s, w0)
      | (Inr documents, w0) \<Rightarrow> add_documents ext s documents kw w0)"

text \<open>
  \<^verbatim>\<open>retrieve\<close> (lines 72 to 77). In line 74 \<^verbatim>\<open>self._index.query.near_text\<close> is
  evaluated first; \<^verbatim>\<open>near_text\<close> is not called when \<^verbatim>\<open>**kwargs\<close> repeats \<^verbatim>\<open>query\<close>.
\<close>

definition retrieve ::
  "externals \<Rightarrow> store \<Rightarrow> string \<Rightarrow> kwargs \<Rightarrow> call list \<Rightarrow> weaviate_query_result outcome" where
  "retrieve ext s t kw w =
     (case index_prop ext s w of
        (Inl e, s1, w1) \<Rightarrow> (Inl e, s1, w1)
      | (Inr coll, s1, w1) \<Rightarrow>
          if has_key kw ''query'' then (Inl TypeError, s1, w1)
          else
            (case query_near_text ext w1 coll t kw of
               Inl e \<Rightarrow> (Inl e, s1, w1 @ [QueryNearText coll t kw])
             | Inr query_result \<Rightarrow>
                 (case objects query_result of
                    [] \<Rightarrow> (Inl IndexError, s1, w1 @ [QueryNearText coll t kw])
                  | result # _ \<Rightarrow>
                      (from_response ext result, s1, w1 @ [QueryNearText coll t kw]))))"

text \<open>\<^verbatim>\<open>close_connection\<close> (lines 79 to 80).\<close>

definition close_connection :: "externals \<Rightarrow> store \<Rightarrow> call list \<Rightarrow> unit outcome" where
  "close_connection ext s w =
     (case client_prop ext s w of
        (Inl e, s1, w1) \<Rightarrow> (Inl e, s1, w1)
      | (Inr NoneClient, s1, w1) \<Rightarrow> (Inl AttributeError, s1, w1)
      | (Inr (WeaviateClient c), s1, w1) \<Rightarrow> (client_close ext w1 c, s1, w1 @ [ClientClose c]))"

subsection \<open>A caller's session\<close>

text \<open>
  What a caller can do with one instance: call a public method or read one of the two
  properties. A session is any sequence of such requests on the same instance; the caller
  may catch an exception and go on, so the session continues with the instance and the
  history as the failed request left them.
\<close>

datatype request =
    Add add_input kwargs
  | Retrieve string kwargs
  | CloseConnection
  | GetClient
  | GetIndex

fun perform :: "externals \<Rightarrow> request \<Rightarrow> store \<Rightarrow> call list \<Rightarrow> store \<times> call list" where
  "perform ext (Add input kw) s w = snd (add ext s input kw w)"
| "perform ext (Retrieve t kw) s w = snd (retrieve ext s t kw w)"
| "perform ext CloseConnection s w = snd (close_connection ext s w)"
| "perform ext GetClient s w = snd (client_prop ext s w)"
| "perform ext GetIndex s w = snd (index_prop ext s w)"

fun session :: "externals \<Rightarrow> request list \<Rightarrow> store \<Rightarrow> call list \<Rightarrow> store \<times> call list" where
  "session ext [] s w = (s, w)"
| "session ext (r # rs) s w = (case perform ext r s w of (s', w') \<Rightarrow> session ext rs s' w')"

subsection \<open>Reading a history\<close>

text \<open>The kinds of call, to count them in a history.\<close>

fun is_chunk :: "call \<Rightarrow> bool" where
  "is_chunk (ChunkerChunk _) = True"
| "is_chunk _ = False"

fun is_connect :: "call \<Rightarrow> bool" where
  "is_connect (ConnectToLocal _) = True"
| "is_connect (ConnectToEmbedded _) = True"
| "is_connect (ConnectToWeaviateCloud _) = True"
| "is_connect (ConnectToCustom _) = True"
| "is_connect _ = False"

fun is_collections :: "call \<Rightarrow> bool" where
  "is_collections (CollectionsExists _ _) = True"
| "is_collections (CollectionsGet _ _) = True"
| "is_collections (CollectionsCreate _ _) = True"
| "is_collections _ = False"

fun is_create :: "call \<Rightarrow> bool" where
  "is_create (CollectionsCreate _ _) = True"
| "is_create _ = False"

fun is_data :: "call \<Rightarrow> bool" where
  "is_data (DataInsert _ _ _ _) = True"
| "is_data (DataInsertMany _ _) = True"
| "is_data _ = False"

fun is_near_text :: "call \<Rightarrow> bool" where
  "is_near_text (QueryNearText _ _ _) = True"
| "is_near_text _ = False"

fun is_close :: "call \<Rightarrow> bool" where
  "is_close (ClientClose _) = True"
| "is_close _ = False"

text \<open>Fetching a collection: \<^verbatim>\<open>collections.get\<close> or \<^verbatim>\<open>collections.create\<close>.\<close>

fun is_fetch :: "call \<Rightarrow> bool" where
  "is_fetch (CollectionsGet _ _) = True"
| "is_fetch (CollectionsCreate _ _) = True"
| "is_fetch _ = False"

text \<open>Calls that set a resource up: connecting, and looking up or creating a collection.\<close>

definition is_setup :: "call \<Rightarrow> bool" where
  "is_setup c = (is_connect c \<or> is_collections c)"

text \<open>The documents a history inserted, in order, read back from the insert calls.\<close>

definition text_of :: "kwargs \<Rightarrow> string" where
  "text_of props = (case map_of props ''text'' of Some t \<Rightarrow> t | None \<Rightarrow> [])"

fun documents_of_call :: "call \<Rightarrow> document list" where
  "documents_of_call (DataInsert _ props u _) = [\<lparr>doc_text = text_of props, doc_id = u\<rparr>]"
| "documents_of_call (DataInsertMany _ obs) =
     map (\<lambda>ob. \<lparr>doc_text = text_of (properties ob), doc_id = uuid ob\<rparr>) obs"
| "documents_of_call _ = []"

definition inserted_documents :: "call list \<Rightarrow> document list" where
  "inserted_documents w = concat (map documents_of_call w)"

text \<open>The \<^verbatim>\<open>DataObject\<close> the adapter builds for a document.\<close>

definition data_object_of :: "document \<Rightarrow> data_object" where
  "data_object_of d = \<lparr>properties = [(''text'', doc_text d)], uuid = doc_id d\<rparr>"

text \<open>The exception of a result, if it is one.\<close>

fun failure :: "exn + 'a \<Rightarrow> exn option" where
  "failure (Inl e) = Some e"
| "failure (Inr _) = None"

text \<open>
  The exception a call raised, given the history before it: the answer of the function
  that the call names.
\<close>

fun raised ::
  "externals \<Rightarrow> (call list \<Rightarrow> string \<Rightarrow> exn + document list) \<Rightarrow> call list \<Rightarrow> call \<Rightarrow> exn option"
  where
  "raised ext ch w (ChunkerChunk t) = failure (ch w t)"
| "raised ext ch w (ConnectToLocal kw) = failure (connect_to_local ext w kw)"
| "raised ext ch w (ConnectToEmbedded kw) = failure (connect_to_embedded ext w kw)"
| "raised ext ch w (ConnectToWeaviateCloud kw) = failure (connect_to_weaviate_cloud ext w kw)"
| "raised ext ch w (ConnectToCustom kw) = failure (connect_to_custom ext w kw)"
| "raised ext ch w (CollectionsExists c n) = failure (collections_exists ext w c n)"
| "raised ext ch w (CollectionsGet c n) = failure (collections_get ext w c n)"
| "raised ext ch w (CollectionsCreate c kw) = failure (collections_create ext w c kw)"
| "raised ext ch w (DataInsert coll props u kw) = failure (data_insert ext w coll props u kw)"
| "raised ext ch w (DataInsertMany coll obs) = failure (data_insert_many ext w coll obs)"
| "raised ext ch w (QueryNearText coll t kw) = failure (query_near_text ext w coll t kw)"
| "raised ext ch w (ClientClose c) = failure (client_close ext w c)"

text \<open>
  \<open>propagated ext ch w calls out\<close>: of the calls made after history \<open>w\<close>, one that
  raised is the last call made and its exception is the outcome \<open>out\<close> of the method.
\<close>

fun propagated ::
  "externals \<Rightarrow> (call list \<Rightarrow> string \<Rightarrow> exn + document list) \<Rightarrow> call list \<Rightarrow> call list \<Rightarrow>
   exn option \<Rightarrow> bool" where
  "propagated ext ch w [] out = True"
| "propagated ext ch w (c # cs) out =
     (case raised ext ch w c of
        Some e \<Rightarrow> cs = [] \<and> out = Some e
      | None \<Rightarrow> propagated ext ch (w @ [c]) cs out)"

text \<open>The two ways a cached property ends once its function has answered.\<close>

definition client_outcome :: "store \<Rightarrow> call list \<Rightarrow> exn + nat \<Rightarrow> client_val outcome" where
  "client_outcome s w r =
     (case r of
        Inl e \<Rightarrow> (Inl e, s, w)
      | Inr c \<Rightarrow> (Inr (WeaviateClient c), s\<lparr>cached_client := Some (WeaviateClient c)\<rparr>, w))"

definition index_outcome :: "store \<Rightarrow> call list \<Rightarrow> exn + nat \<Rightarrow> nat outcome" where
  "index_outcome s w r =
     (case r of
        Inl e \<Rightarrow> (Inl e, s, w)
      | Inr coll \<Rightarrow> (Inr coll, s\<lparr>cached_index := Some coll\<rparr>, w))"

subsection \<open>What a run may do\<close>

text \<open>
  \<open>keeps s s'\<close>: the instance \<open>s'\<close> has the configuration of \<open>s\<close> and every
  property that \<open>s\<close> had cached, unchanged.
\<close>

definition keeps :: "store \<Rightarrow> store \<Rightarrow> bool" where
  "keeps s s' =
     (chunker s' = chunker s \<and> index_name s' = index_name s
      \<and> client_settings s' = client_settings s \<and> vectorstore_params s' = vectorstore_params s
      \<and> (case cached_client s of None \<Rightarrow> True | Some v \<Rightarrow> cached_client s' = Some v)
      \<and> (case cached_index s of None \<Rightarrow> True | Some i \<Rightarrow> cached_index s' = Some i))"

text \<open>
  The calls a run from \<open>s\<close> may make to set its resources up: a connect only while no
  client is cached, a collection lookup only while no collection is cached.
\<close>

definition connect_call :: "store \<Rightarrow> call \<Rightarrow> bool" where
  "connect_call s c = (cached_client s = None \<and> is_connect c)"

definition lookup_call :: "store \<Rightarrow> call \<Rightarrow> bool" where
  "lookup_call s c = (cached_index s = None \<and> (is_collections c \<or> connect_call s c))"

text \<open>
  \<open>run_of ext ch P w w' out\<close>: the history \<open>w'\<close> is \<open>w\<close> followed by calls that
  all satisfy \<open>P\<close>, and a call among them that raised was the last one, with its
  exception as the outcome.
\<close>

definition run_of ::
  "externals \<Rightarrow> (call list \<Rightarrow> string \<Rightarrow> exn + document list) \<Rightarrow> (call \<Rightarrow> bool) \<Rightarrow>
   call list \<Rightarrow> call list \<Rightarrow> exn option \<Rightarrow> bool" where
  "run_of ext ch P w w' out =
     (take (length w) w' = w \<and> list_all P (drop (length w) w')
      \<and> propagated ext ch w (drop (length w) w') out)"

subsection \<open>A small library to run the adapter against\<close>

text \<open>
  An in-memory stand-in for the database: a collection exists once it was created under
  that name, an insert answers with the identifier, a query answers with the objects
  inserted so far, latest first.
\<close>

fun created_as :: "string option \<Rightarrow> call \<Rightarrow> bool" where
  "created_as n (CollectionsCreate _ kw) = (map_of kw ''name'' = n)"
| "created_as n _ = False"

fun objects_of_call :: "call \<Rightarrow> weaviate_object list" where
  "objects_of_call (DataInsert _ props u _) = [\<lparr>object_properties = props, object_uuid = u\<rparr>]"
| "objects_of_call (DataInsertMany _ obs) =
     map (\<lambda>ob. \<lparr>object_properties = properties ob, object_uuid = uuid ob\<rparr>) obs"
| "objects_of_call _ = []"

definition memory_db :: externals where
  "memory_db =
     \<lparr>connect_to_local = (\<lambda>w kw. Inr 1),
      connect_to_embedded = (\<lambda>w kw. Inr 2),
      connect_to_weaviate_cloud = (\<lambda>w kw. Inr 3),
      connect_to_custom = (\<lambda>w kw. Inr 4),
      collections_exists = (\<lambda>w c n. Inr (list_ex (created_as n) w)),
      collections_get =
        (\<lambda>w c n. if list_ex (created_as n) w then Inr 10 else Inl (Raised ''no such collection'')),
      collections_create = (\<lambda>w c kw. Inr 10),
      data_insert = (\<lambda>w coll props u kw. Inr u),
      data_insert_many = (\<lambda>w coll obs. Inr (map uuid obs)),
      query_near_text = (\<lambda>w coll t kw. Inr \<lparr>objects = rev (concat (map objects_of_call w))\<rparr>),
      client_close = (\<lambda>w c. Inr ()),
      settings_kwargs = settings_fields,
      params_kwargs =
        (\<lambda>p. (case name p of None \<Rightarrow> [] | Some n \<Rightarrow> [(''name'', n)]) @ params_fields p),
      from_response = (\<lambda>ob. Inr \<lparr>result_fields = object_properties ob\<rparr>)\<rparr>"

text \<open>The same library with a server that refuses every local connection.\<close>

definition refusing_db :: externals where
  "refusing_db =
     memory_db\<lparr>connect_to_local := (\<lambda>w kw. Inl (Raised ''connection refused''))\<rparr>"

text \<open>
  The same library with a database that finds no collection and lets none be created.
\<close>

definition readonly_db :: externals where
  "readonly_db =
     memory_db
       \<lparr>collections_exists := (\<lambda>w c n. Inr False),
        collections_create := (\<lambda>w c kw. Inl (Raised ''read only''))\<rparr>"

text \<open>A chunker that cuts a text into its words, numbering the chunks.\<close>

fun words_loop :: "string \<Rightarrow> string \<Rightarrow> string list" where
  "words_loop cur [] = (if cur = [] then [] else [cur])"
| "words_loop cur (c # cs) =
     (if c = CHR '' '' then (if cur = [] then [] else [cur]) @ words_loop [] cs
      else words_loop (cur @ [c]) cs)"

fun number_chunks :: "nat \<Rightarrow> string list \<Rightarrow> document list" where
  "number_chunks n [] = []"
| "number_chunks n (t # ts) =
     \<lparr>doc_text = t, doc_id = replicate (Suc n) CHR ''i''\<rparr> # number_chunks (Suc n) ts"

definition word_chunker :: "call list \<Rightarrow> string \<Rightarrow> exn + document list" where
  "word_chunker w t = Inr (number_chunks 0 (words_loop [] t))"

text \<open>A store as the class example declares it, before any use; and one with a mode
  the adapter does not know.\<close>

definition my_store :: store where
  "my_store =
     \<lparr>chunker = word_chunker,
      index_name = Some ''my-store-0001'',
      client_settings = \<lparr>mode = ''local'', settings_fields = [(''port'', ''8080'')]\<rparr>,
      vectorstore_params = \<lparr>name = None, params_fields = []\<rparr>,
      cached_client = None,
      cached_index = None\<rparr>"

definition odd_store :: store where
  "odd_store =
     my_store\<lparr>client_settings := \<lparr>mode = ''remote'', settings_fields = []\<rparr>\<rparr>"

text \<open>The example store once connected, and once its collection is known; a session.\<close>

definition connected_store :: store where
  "connected_store = my_store\<lparr>cached_client := Some (WeaviateClient 1)\<rparr>"

definition indexed_store :: store where
  "indexed_store = connected_store\<lparr>cached_index := Some 10\<rparr>"

definition my_requests :: "request list" where
  "my_requests =
     [Add (Str ''to be or not'') [], Retrieve ''be'' [], GetIndex, GetClient, CloseConnection,
      Add (Docs []) []]"

text \<open>A history in which another instance has already created the collection.\<close>

definition shared_history :: "call list" where
  "shared_history =
     [ConnectToLocal [(''port'', ''8080'')], CollectionsExists 1 (Some ''my-store-0001''),
      CollectionsCreate 1 [(''name'', ''my-store-0001'')]]"

text \<open>Three documents to add.\<close>

definition doc_a :: document where
  "doc_a = \<lparr>doc_text = ''alpha'', doc_id = ''a''\<rparr>"

definition doc_b :: document where
  "doc_b = \<lparr>doc_text = ''beta'', doc_id = ''b''\<rparr>"

definition doc_c :: document where
  "doc_c = \<lparr>doc_text = ''gamma'', doc_id = ''c''\<rparr>"

text \<open>The history after the three documents were added as one batch.\<close>

definition three_added :: "call list" where
  "three_added =
     [DataInsertMany 10
        [\<lparr>properties = [(''text'', ''alpha'')], uuid = ''a''\<rparr>,
         \<lparr>properties = [(''text'', ''beta'')], uuid = ''b''\<rparr>,
         \<lparr>properties = [(''text'', ''gamma'')], uuid = ''c''\<rparr>]]"

text \<open>A database that is full and slow: every insert and every query raises.\<close>

definition failing_db :: externals where
  "failing_db =
     memory_db
       \<lparr>data_insert := (\<lambda>w coll props u kw. Inl (Raised ''disk full'')),
        data_insert_many := (\<lambda>w coll obs. Inl (Raised ''disk full'')),
        query_near_text := (\<lambda>w coll t kw. Inl (Raised ''timed out''))\<rparr>"

section \<open>Properties\<close>

lemma data_objects_loop_map:
  "data_objects_loop acc documents = acc @ map data_object_of documents"
  by (induction documents arbitrary: acc) (simp_all add: data_object_of_def)

lemma client_prop_cached:
  "cached_client s = Some v \<Longrightarrow> client_prop ext s w = (Inr v, s, w)"
  by (simp add: client_prop_def cached_property_def)

lemma index_prop_cached:
  "cached_index s = Some v \<Longrightarrow> index_prop ext s w = (Inr v, s, w)"
  by (simp add: index_prop_def cached_property_def)

lemma client_prop_first:
  "cached_client s = None \<Longrightarrow>
   client_prop ext s w =
     (case client_func ext s w of
        (Inl e, s', w') \<Rightarrow> (Inl e, s', w')
      | (Inr v, s', w') \<Rightarrow> (Inr v, s'\<lparr>cached_client := Some v\<rparr>, w'))"
  by (simp add: client_prop_def cached_property_def)

subsection \<open>Connecting\<close>

text \<open>
  Claim C5. When \<^verbatim>\<open>client_settings.mode\<close> is one of \<^verbatim>\<open>"local"\<close>, \<^verbatim>\<open>"embedded"\<close>,
  \<^verbatim>\<open>"cloud"\<close>, \<^verbatim>\<open>"custom"\<close>, the first access to \<^verbatim>\<open>_client\<close> (nothing cached yet)
  makes exactly one call, to the connect function of that mode (\<^verbatim>\<open>connect_to_local\<close>,
  \<^verbatim>\<open>connect_to_embedded\<close>, \<^verbatim>\<open>connect_to_weaviate_cloud\<close>, \<^verbatim>\<open>connect_to_custom\<close>) with
  \<^verbatim>\<open>client_settings.kwargs()\<close> as its arguments; the access returns and caches the
  handle the call answers with, or raises what the call raises.
\<close>

theorem client_connects_by_mode:
  assumes "cached_client s = None"
  shows "(mode (client_settings s) = ''local'' \<longrightarrow>
           client_prop ext s w =
             client_outcome s (w @ [ConnectToLocal (settings_kwargs ext (client_settings s))])
               (connect_to_local ext w (settings_kwargs ext (client_settings s))))
       \<and> (mode (client_settings s) = ''embedded'' \<longrightarrow>
           client_prop ext s w =
             client_outcome s (w @ [ConnectToEmbedded (settings_kwargs ext (client_settings s))])
               (connect_to_embedded ext w (settings_kwargs ext (client_settings s))))
       \<and> (mode (client_settings s) = ''cloud'' \<longrightarrow>
           client_prop ext s w =
             client_outcome s
               (w @ [ConnectToWeaviateCloud (settings_kwargs ext (client_settings s))])
               (connect_to_weaviate_cloud ext w (settings_kwargs ext (client_settings s))))
       \<and> (mode (client_settings s) = ''custom'' \<longrightarrow>
           client_prop ext s w =
             client_outcome s (w @ [ConnectToCustom (settings_kwargs ext (client_settings s))])
               (connect_to_custom ext w (settings_kwargs ext (client_settings s))))"
  using assms
  by (simp add: client_prop_first client_func_def client_outcome_def Let_def
      split: sum.splits)

text \<open>The example store connects locally, to a library that answers and to one that refuses.\<close>

theorem client_connects_by_mode_witness:
  "cached_client my_store = None \<and> mode (client_settings my_store) = ''local''
   \<and> client_prop memory_db my_store [] =
       (Inr (WeaviateClient 1), my_store\<lparr>cached_client := Some (WeaviateClient 1)\<rparr>,
        [ConnectToLocal [(''port'', ''8080'')]])
   \<and> client_prop refusing_db my_store [] =
       (Inl (Raised ''connection refused''), my_store, [ConnectToLocal [(''port'', ''8080'')]])"
proof -
  have c: "cached_client my_store = None" and m: "mode (client_settings my_store) = ''local''"
    by (simp_all add: my_store_def)
  have a: "client_prop memory_db my_store [] =
       (Inr (WeaviateClient 1), my_store\<lparr>cached_client := Some (WeaviateClient 1)\<rparr>,
        [ConnectToLocal [(''port'', ''8080'')]])"
    using client_connects_by_mode [OF c, of memory_db "[]"] m
    by (simp add: client_outcome_def memory_db_def my_store_def)
  have b: "client_prop refusing_db my_store [] =
       (Inl (Raised ''connection refused''), my_store, [ConnectToLocal [(''port'', ''8080'')]])"
    using client_connects_by_mode [OF c, of refusing_db "[]"] m
    by (simp add: client_outcome_def refusing_db_def memory_db_def my_store_def)
  show ?thesis using c m a b by simp
qed

subsection \<open>Runs of the two properties\<close>

lemma index_prop_first:
  "cached_index s = None \<Longrightarrow>
   index_prop ext s w =
     (case index_func ext s w of
        (Inl e, s', w') \<Rightarrow> (Inl e, s', w')
      | (Inr v, s', w') \<Rightarrow> (Inr v, s'\<lparr>cached_index := Some v\<rparr>, w'))"
  by (simp add: index_prop_def cached_property_def)

lemma keeps_refl: "keeps s s"
  by (simp add: keeps_def split: option.splits)

lemma keeps_trans: "keeps s s1 \<Longrightarrow> keeps s1 s2 \<Longrightarrow> keeps s s2"
  by (auto simp: keeps_def split: option.splits)

lemma propagated_None: "propagated ext ch w evs None \<Longrightarrow> propagated ext ch w evs out"
  by (induction evs arbitrary: w) (auto split: option.splits)

lemma propagated_append:
  "propagated ext ch w evs1 None \<Longrightarrow>
   propagated ext ch w (evs1 @ evs2) out = propagated ext ch (w @ evs1) evs2 out"
  by (induction evs1 arbitrary: w) (auto split: option.splits)

lemma run_ofI:
  "w' = w @ evs \<Longrightarrow> list_all P evs \<Longrightarrow> propagated ext ch w evs out \<Longrightarrow> run_of ext ch P w w' out"
  by (simp add: run_of_def)

lemma run_ofE:
  assumes "run_of ext ch P w w' out"
  obtains evs where "w' = w @ evs" "list_all P evs" "propagated ext ch w evs out"
proof -
  have "w' = w @ drop (length w) w'"
    using assms by (metis append_take_drop_id run_of_def)
  then show thesis
    using assms that unfolding run_of_def by blast
qed

lemma run_of_refl: "run_of ext ch P w w out"
  by (simp add: run_of_def)

lemma run_of_trans:
  assumes "run_of ext ch P w w1 None" "run_of ext ch P w1 w2 out"
  shows "run_of ext ch P w w2 out"
proof -
  from assms(1) obtain evs1 where 1: "w1 = w @ evs1" "list_all P evs1" "propagated ext ch w evs1 None"
    by (rule run_ofE)
  from assms(2) obtain evs2 where 2: "w2 = w1 @ evs2" "list_all P evs2" "propagated ext ch w1 evs2 out"
    by (rule run_ofE)
  show ?thesis
  proof (rule run_ofI)
    show "w2 = w @ (evs1 @ evs2)" using 1 2 by simp
    show "list_all P (evs1 @ evs2)" using 1 2 by simp
    show "propagated ext ch w (evs1 @ evs2) out"
      using 1 2 by (simp add: propagated_append)
  qed
qed

lemma run_of_call:
  assumes "P c" "case raised ext ch w c of None \<Rightarrow> True | Some e \<Rightarrow> out = Some e"
  shows "run_of ext ch P w (w @ [c]) out"
  using assms by (auto simp: run_of_def split: option.splits)

lemma run_of_mono:
  assumes "run_of ext ch P w w' out" "\<And>c. P c \<Longrightarrow> Q c"
  shows "run_of ext ch Q w w' out"
  using assms by (auto simp: run_of_def list_all_iff)

lemma run_of_None: "run_of ext ch P w w' None \<Longrightarrow> run_of ext ch P w w' out"
  by (auto simp: run_of_def propagated_None)

lemma run_of_filter:
  assumes "run_of ext ch P w w' out" "\<And>c. P c \<Longrightarrow> \<not> Q c"
  shows "filter Q w' = filter Q w"
proof -
  from assms(1) obtain evs where "w' = w @ evs" "list_all P evs" by (rule run_ofE)
  then show ?thesis using assms(2) by (auto simp: list_all_iff filter_empty_conv)
qed

lemma failure_map_sum [simp]: "failure (map_sum id f r) = failure r"
  by (cases r) simp_all

lemma failure_eq_Some [simp]: "failure r = Some e \<longleftrightarrow> r = Inl e"
  by (cases r) auto

lemma failure_eq_None: "failure r = None \<longleftrightarrow> (\<exists>v. r = Inr v)"
  by (cases r) auto

lemma map_sum_id_Inl [simp]: "map_sum id f r = Inl e \<longleftrightarrow> r = Inl e"
  by (cases r) auto

lemma client_prop_run:
  assumes "client_prop ext s w = (r, s', w')"
  shows "run_of ext ch (connect_call s) w w' (failure r) \<and> keeps s s'
       \<and> (case r of Inl e \<Rightarrow> s' = s | Inr v \<Rightarrow> cached_client s' = Some v)"
proof (cases "cached_client s")
  case (Some v)
  then show ?thesis
    using assms by (auto simp: client_prop_cached run_of_refl keeps_refl)
next
  case None
  then show ?thesis
    using assms
    by (auto simp: client_prop_first client_func_def Let_def run_of_def connect_call_def keeps_def
        split: if_splits sum.splits option.splits)
qed

lemma client_collections_run:
  assumes "client_collections ext s w = (r, s', w')"
  shows "run_of ext ch (connect_call s) w w' (failure r) \<and> keeps s s'
       \<and> (case r of Inl e \<Rightarrow> True | Inr c \<Rightarrow> cached_client s' = Some (WeaviateClient c))"
proof -
  obtain r0 s0 w0 where c: "client_prop ext s w = (r0, s0, w0)"
    by (metis prod_cases3)
  from client_prop_run [OF c, of ch] show ?thesis
    using assms c
    by (auto simp: client_collections_def run_of_None split: sum.splits client_val.splits)
qed


lemma client_collections_cached:
  "cached_client s = Some (WeaviateClient c) \<Longrightarrow> client_collections ext s w = (Inr c, s, w)"
  by (simp add: client_collections_def client_prop_cached)

lemma index_func_connected:
  assumes "client_collections ext s w = (Inr c, s1, w1)"
  shows "index_func ext s w =
     (case collections_exists ext w1 c (index_name s) of
        Inl e \<Rightarrow> (Inl e, s1, w1 @ [CollectionsExists c (index_name s)])
      | Inr found \<Rightarrow>
          if found then
            (collections_get ext (w1 @ [CollectionsExists c (index_name s)]) c (index_name s), s1,
             w1 @ [CollectionsExists c (index_name s), CollectionsGet c (index_name s)])
          else
            (collections_create ext (w1 @ [CollectionsExists c (index_name s)]) c
               (params_kwargs ext (index_params s)), s1,
             w1 @ [CollectionsExists c (index_name s),
                   CollectionsCreate c (params_kwargs ext (index_params s))]))"
proof -
  have "cached_client s1 = Some (WeaviateClient c)"
    using client_collections_run [OF assms, of "chunker s"] by simp
  then have again: "client_collections ext s1 w2 = (Inr c, s1, w2)" for w2
    by (rule client_collections_cached)
  show ?thesis
    by (simp add: index_func_def assms again Let_def split: sum.splits)
qed

lemma index_func_unconnected:
  assumes "client_collections ext s w = (Inl e, s1, w1)"
  shows "index_func ext s w = (Inl e, s1, w1)"
  by (simp add: index_func_def assms Let_def)

lemma run_of_calls:
  assumes "run_of ext ch P w w1 None" "list_all Q evs" "propagated ext ch w1 evs out"
    "\<And>c. P c \<Longrightarrow> Q c"
  shows "run_of ext ch Q w (w1 @ evs) out"
proof (rule run_of_trans)
  show "run_of ext ch Q w w1 None"
    using assms(1,4) by (rule run_of_mono)
  show "run_of ext ch Q w1 (w1 @ evs) out"
    using assms(2,3) by (simp add: run_of_def)
qed

lemma index_func_run:
  assumes "index_func ext s w = (r, s', w')" "cached_index s = None"
  shows "run_of ext ch (lookup_call s) w w' (failure r) \<and> keeps s s'"
proof -
  obtain r1 s1 w1 where c: "client_collections ext s w = (r1, s1, w1)"
    by (metis prod_cases3)
  note run1 = client_collections_run [OF c, of ch]
  have sub: "connect_call s c \<Longrightarrow> lookup_call s c" for c
    using assms(2) by (simp add: lookup_call_def)
  show ?thesis
  proof (cases r1)
    case (Inl e)
    then have "index_func ext s w = (Inl e, s1, w1)"
      using c by (simp add: index_func_unconnected)
    then show ?thesis
      using assms(1) run1 Inl sub by (auto intro: run_of_mono)
  next
    case (Inr h)
    then have ok: "run_of ext ch (connect_call s) w w1 None" and k: "keeps s s1"
      using run1 by simp_all
    note eq = index_func_connected [OF c [unfolded Inr]]
    have k': "s' = s1"
      using assms(1) eq by (auto split: sum.splits if_splits)
    have "\<exists>evs. w' = w1 @ evs \<and> list_all (lookup_call s) evs
                \<and> propagated ext ch w1 evs (failure r)"
      using assms eq
      by (auto simp: lookup_call_def split: sum.splits if_splits option.splits)
    then obtain evs where "w' = w1 @ evs" "list_all (lookup_call s) evs"
        "propagated ext ch w1 evs (failure r)"
      by blast
    then have "run_of ext ch (lookup_call s) w w' (failure r)"
      using run_of_calls [OF ok _ _ sub] by simp
    then show ?thesis
      using k k' by simp
  qed
qed

lemma index_prop_run:
  assumes "index_prop ext s w = (r, s', w')"
  shows "run_of ext ch (lookup_call s) w w' (failure r) \<and> keeps s s'
       \<and> (case r of Inl e \<Rightarrow> True | Inr i \<Rightarrow> cached_index s' = Some i)"
proof (cases "cached_index s")
  case (Some i)
  then show ?thesis
    using assms by (auto simp: index_prop_cached run_of_refl keeps_refl)
next
  case None
  obtain r0 s0 w0 where f: "index_func ext s w = (r0, s0, w0)"
    by (metis prod_cases3)
  from index_func_run [OF f None, of ch] show ?thesis
    using assms f None
    by (auto simp: index_prop_first keeps_def split: sum.splits option.splits)
qed

lemma client_collections_None:
  "cached_client s = Some NoneClient \<Longrightarrow> client_collections ext s w = (Inl AttributeError, s, w)"
  by (simp add: client_collections_def client_prop_cached)

lemma index_prop_None:
  "cached_client s = Some NoneClient \<Longrightarrow> cached_index s = None \<Longrightarrow>
   index_prop ext s w = (Inl AttributeError, s, w)"
  by (simp add: index_prop_first index_func_def client_collections_None Let_def)

lemma add_documents_index_raises:
  "index_prop ext s w = (Inl e, s1, w1) \<Longrightarrow> add_documents ext s documents kw w = (Inl e, s1, w1)"
  by (simp add: add_documents_def Let_def)

lemma retrieve_index_raises:
  "index_prop ext s w = (Inl e, s1, w1) \<Longrightarrow> retrieve ext s t kw w = (Inl e, s1, w1)"
  by (simp add: retrieve_def)

subsection \<open>A mode the adapter does not know\<close>

text \<open>
  Claim C10. When \<^verbatim>\<open>client_settings.mode\<close> is none of \<^verbatim>\<open>"local"\<close>, \<^verbatim>\<open>"embedded"\<close>,
  \<^verbatim>\<open>"cloud"\<close>, \<^verbatim>\<open>"custom"\<close>, the first access to \<^verbatim>\<open>_client\<close> makes no call and
  raises nothing: it returns \<^verbatim>\<open>None\<close>, which is cached. Every later operation that
  needs the client then works on \<^verbatim>\<open>None\<close>: \<^verbatim>\<open>close_connection\<close>, \<^verbatim>\<open>_index\<close>,
  \<^verbatim>\<open>retrieve\<close> and \<^verbatim>\<open>add\<close> end in the \<open>AttributeError\<close> of reading an attribute
  of \<^verbatim>\<open>None\<close>, without any call to the library.
\<close>

theorem unknown_mode_client_is_None:
  assumes "mode (client_settings s) \<notin> {''local'', ''embedded'', ''cloud'', ''custom''}"
    and "cached_client s = None"
    and "s' = s\<lparr>cached_client := Some NoneClient\<rparr>"
  shows "client_prop ext s w = (Inr NoneClient, s', w)
       \<and> client_prop ext s' w' = (Inr NoneClient, s', w')
       \<and> close_connection ext s w = (Inl AttributeError, s', w)
       \<and> close_connection ext s' w' = (Inl AttributeError, s', w')
       \<and> (cached_index s = None \<longrightarrow>
            index_prop ext s w = (Inl AttributeError, s', w)
          \<and> index_prop ext s' w' = (Inl AttributeError, s', w')
          \<and> retrieve ext s' t kw w' = (Inl AttributeError, s', w')
          \<and> add ext s' (Docs documents) kw w' = (Inl AttributeError, s', w'))"
proof -
  have first: "client_prop ext s w = (Inr NoneClient, s', w)"
    using assms by (simp add: client_prop_first client_func_def Let_def)
  have c': "cached_client s' = Some NoneClient"
    using assms(3) by simp
  have later: "client_prop ext s' w' = (Inr NoneClient, s', w')"
    using c' by (rule client_prop_cached)
  have close1: "close_connection ext s w = (Inl AttributeError, s', w)"
    by (simp add: close_connection_def first)
  have close2: "close_connection ext s' w' = (Inl AttributeError, s', w')"
    by (simp add: close_connection_def later)
  have idx: "index_prop ext s w = (Inl AttributeError, s', w)"
    and idx': "index_prop ext s' w' = (Inl AttributeError, s', w')"
    and retr: "retrieve ext s' t kw w' = (Inl AttributeError, s', w')"
    and addd: "add ext s' (Docs documents) kw w' = (Inl AttributeError, s', w')"
    if i: "cached_index s = None"
  proof -
    have i': "cached_index s' = None"
      using i assms(3) by simp
    show "index_prop ext s' w' = (Inl AttributeError, s', w')"
      using c' i' by (rule index_prop_None)
    then show "retrieve ext s' t kw w' = (Inl AttributeError, s', w')"
      by (rule retrieve_index_raises)
    show "add ext s' (Docs documents) kw w' = (Inl AttributeError, s', w')"
      using index_prop_None [OF c' i', of ext w']
      by (simp add: add_def add_documents_index_raises)
    show "index_prop ext s w = (Inl AttributeError, s', w)"
      using i first
      by (simp add: index_prop_first index_func_def client_collections_def Let_def)
  qed
  from first later close1 close2 idx idx' retr addd show ?thesis
    by blast
qed

text \<open>The store whose mode is \<^verbatim>\<open>"remote"\<close>.\<close>

theorem unknown_mode_client_is_None_witness:
  "mode (client_settings odd_store) \<notin> {''local'', ''embedded'', ''cloud'', ''custom''}
   \<and> cached_client odd_store = None \<and> cached_index odd_store = None
   \<and> client_prop memory_db odd_store [] =
       (Inr NoneClient, odd_store\<lparr>cached_client := Some NoneClient\<rparr>, [])
   \<and> close_connection memory_db odd_store [] =
       (Inl AttributeError, odd_store\<lparr>cached_client := Some NoneClient\<rparr>, [])
   \<and> retrieve memory_db (odd_store\<lparr>cached_client := Some NoneClient\<rparr>) ''my question'' [] [] =
       (Inl AttributeError, odd_store\<lparr>cached_client := Some NoneClient\<rparr>, [])"
proof -
  have m: "mode (client_settings odd_store) \<notin> {''local'', ''embedded'', ''cloud'', ''custom''}"
    and c: "cached_client odd_store = None" and i: "cached_index odd_store = None"
    by (simp_all add: odd_store_def my_store_def)
  show ?thesis
    using m c i unknown_mode_client_is_None [OF m c refl, of memory_db "[]" "[]" "''my question''" "[]"]
    by simp
qed

subsection \<open>Runs of the methods\<close>

lemma add_documents_indexed:
  assumes "index_prop ext s w = (Inr coll, s1, w1)"
  shows "add_documents ext s documents kw w =
     (case documents of
        [] \<Rightarrow> (Inl IndexError, s1, w1)
      | [d] \<Rightarrow>
          if has_key kw ''properties'' \<or> has_key kw ''uuid'' then (Inl TypeError, s1, w1)
          else
            (map_sum id InsertReturn
               (data_insert ext w1 coll [(''text'', doc_text d)] (doc_id d) kw),
             s1, w1 @ [DataInsert coll [(''text'', doc_text d)] (doc_id d) kw])
      | _ \<Rightarrow>
          (map_sum id InsertManyReturn
             (data_insert_many ext w1 coll (map data_object_of documents)),
           s1, w1 @ [DataInsertMany coll (map data_object_of documents)]))"
  using assms
  by (simp add: add_documents_def Let_def data_objects_loop_map split: list.splits)

lemma add_documents_run:
  assumes "add_documents ext s documents kw w = (r, s', w')"
  shows "run_of ext ch (\<lambda>c. is_data c \<or> lookup_call s c) w w' (failure r) \<and> keeps s s'"
proof -
  obtain r1 s1 w1 where i: "index_prop ext s w = (r1, s1, w1)"
    by (metis prod_cases3)
  note run1 = index_prop_run [OF i, of ch]
  show ?thesis
  proof (cases r1)
    case (Inl e)
    then have "add_documents ext s documents kw w = (Inl e, s1, w1)"
      using i by (simp add: add_documents_index_raises)
    then show ?thesis
      using assms run1 Inl by (auto intro: run_of_mono)
  next
    case (Inr coll)
    then have ok: "run_of ext ch (lookup_call s) w w1 None" and k: "keeps s s1"
      using run1 by simp_all
    have "s' = s1 \<and> (\<exists>evs. w' = w1 @ evs \<and> list_all (\<lambda>c. is_data c \<or> lookup_call s c) evs
                \<and> propagated ext ch w1 evs (failure r))"
      using assms i Inr
      by (auto simp: add_documents_indexed split: list.splits option.splits if_splits)
    then obtain evs where "s' = s1" "w' = w1 @ evs" "list_all (\<lambda>c. is_data c \<or> lookup_call s c) evs"
        "propagated ext ch w1 evs (failure r)"
      by blast
    then show ?thesis
      using run_of_calls [OF ok, of "\<lambda>c. is_data c \<or> lookup_call s c" evs "failure r"] k by simp
  qed
qed

lemma add_run:
  assumes "add ext s input kw w = (r, s', w')"
  shows "run_of ext (chunker s) (\<lambda>c. is_chunk c \<or> is_data c \<or> lookup_call s c) w w' (failure r)
       \<and> keeps s s'"
proof (cases input)
  case (Docs documents)
  then have "add_documents ext s documents kw w = (r, s', w')"
    using assms by (simp add: add_def)
  from add_documents_run [OF this, of "chunker s"] show ?thesis
    by (auto intro: run_of_mono)
next
  case (Str t)
  show ?thesis
  proof (cases "chunker s w t")
    case (Inl e)
    then show ?thesis
      using assms Str by (auto simp: add_def run_of_def keeps_refl)
  next
    case (Inr documents)
    then have a: "add_documents ext s documents kw (w @ [ChunkerChunk t]) = (r, s', w')"
      using assms Str by (simp add: add_def)
    have first: "run_of ext (chunker s) (\<lambda>c. is_chunk c \<or> is_data c \<or> lookup_call s c) w
        (w @ [ChunkerChunk t]) None"
      using Inr by (simp add: run_of_def)
    from add_documents_run [OF a, of "chunker s"]
    have "run_of ext (chunker s) (\<lambda>c. is_chunk c \<or> is_data c \<or> lookup_call s c)
        (w @ [ChunkerChunk t]) w' (failure r)" and k: "keeps s s'"
      by (auto intro: run_of_mono)
    with first show ?thesis
      by (auto intro: run_of_trans)
  qed
qed

lemma retrieve_run:
  assumes "retrieve ext s t kw w = (r, s', w')"
  shows "run_of ext ch (\<lambda>c. is_near_text c \<or> lookup_call s c) w w' (failure r) \<and> keeps s s'"
proof -
  obtain r1 s1 w1 where i: "index_prop ext s w = (r1, s1, w1)"
    by (metis prod_cases3)
  note run1 = index_prop_run [OF i, of ch]
  show ?thesis
  proof (cases r1)
    case (Inl e)
    then have "retrieve ext s t kw w = (Inl e, s1, w1)"
      using i by (simp add: retrieve_index_raises)
    then show ?thesis
      using assms run1 Inl by (auto intro: run_of_mono)
  next
    case (Inr coll)
    then have ok: "run_of ext ch (lookup_call s) w w1 None" and k: "keeps s s1"
      using run1 by simp_all
    have "s' = s1 \<and> (\<exists>evs. w' = w1 @ evs
        \<and> list_all (\<lambda>c. is_near_text c \<or> lookup_call s c) evs
        \<and> propagated ext ch w1 evs (failure r))"
      using assms i Inr
      by (auto simp: retrieve_def split: sum.splits list.splits option.splits if_splits)
    then obtain evs where "s' = s1" "w' = w1 @ evs"
        "list_all (\<lambda>c. is_near_text c \<or> lookup_call s c) evs"
        "propagated ext ch w1 evs (failure r)"
      by blast
    then show ?thesis
      using run_of_calls [OF ok, of "\<lambda>c. is_near_text c \<or> lookup_call s c" evs "failure r"] k
      by simp
  qed
qed

lemma close_connection_run:
  assumes "close_connection ext s w = (r, s', w')"
  shows "run_of ext ch (\<lambda>c. is_close c \<or> connect_call s c) w w' (failure r) \<and> keeps s s'"
proof -
  obtain r1 s1 w1 where i: "client_prop ext s w = (r1, s1, w1)"
    by (metis prod_cases3)
  note run1 = client_prop_run [OF i, of ch]
  show ?thesis
  proof (cases r1)
    case (Inl e)
    then have "close_connection ext s w = (Inl e, s1, w1)"
      using i by (simp add: close_connection_def)
    then show ?thesis
      using assms run1 Inl by (auto intro: run_of_mono)
  next
    case (Inr v)
    then have ok: "run_of ext ch (connect_call s) w w1 None" and k: "keeps s s1"
      using run1 by simp_all
    have "s' = s1 \<and> (\<exists>evs. w' = w1 @ evs \<and> list_all (\<lambda>c. is_close c \<or> connect_call s c) evs
                \<and> propagated ext ch w1 evs (failure r))"
      using assms i Inr
      by (auto simp: close_connection_def split: client_val.splits option.splits)
    then obtain evs where "s' = s1" "w' = w1 @ evs" "list_all (\<lambda>c. is_close c \<or> connect_call s c) evs"
        "propagated ext ch w1 evs (failure r)"
      by blast
    then show ?thesis
      using run_of_calls [OF ok, of "\<lambda>c. is_close c \<or> connect_call s c" evs "failure r"] k by simp
  qed
qed

subsection \<open>Sessions\<close>

lemma connect_kind:
  "is_connect c \<Longrightarrow>
   \<not> is_chunk c \<and> \<not> is_data c \<and> \<not> is_collections c \<and> \<not> is_near_text c \<and> \<not> is_close c"
  by (cases c) simp_all

lemma collections_kind:
  "is_collections c \<Longrightarrow>
   \<not> is_chunk c \<and> \<not> is_data c \<and> \<not> is_connect c \<and> \<not> is_near_text c \<and> \<not> is_close c"
  by (cases c) simp_all

lemma data_kind:
  "is_data c \<Longrightarrow>
   \<not> is_chunk c \<and> \<not> is_collections c \<and> \<not> is_connect c \<and> \<not> is_near_text c \<and> \<not> is_close c"
  by (cases c) simp_all

lemma fetch_kind: "is_fetch c \<Longrightarrow> is_collections c"
  by (cases c) simp_all

lemma perform_frame:
  assumes "perform ext req s w = (s', w')"
  shows "keeps s s'
       \<and> (cached_client s \<noteq> None \<longrightarrow> filter is_connect w' = filter is_connect w)
       \<and> (cached_index s \<noteq> None \<longrightarrow> filter is_collections w' = filter is_collections w)"
proof (cases req)
  case (Add input kw)
  then obtain r where "add ext s input kw w = (r, s', w')"
    using assms by (metis perform.simps(1) prod.collapse)
  from add_run [OF this] show ?thesis
    by (auto simp: lookup_call_def connect_call_def elim!: run_of_filter
        dest: connect_kind collections_kind)
next
  case (Retrieve t kw)
  then obtain r where "retrieve ext s t kw w = (r, s', w')"
    using assms by (metis perform.simps(2) prod.collapse)
  from retrieve_run [OF this, of "chunker s"] show ?thesis
    by (auto simp: lookup_call_def connect_call_def elim!: run_of_filter
        dest: connect_kind collections_kind)
next
  case CloseConnection
  then obtain r where "close_connection ext s w = (r, s', w')"
    using assms by (metis perform.simps(3) prod.collapse)
  from close_connection_run [OF this, of "chunker s"] show ?thesis
    by (auto simp: lookup_call_def connect_call_def elim!: run_of_filter
        dest: connect_kind collections_kind)
next
  case GetClient
  then obtain r where "client_prop ext s w = (r, s', w')"
    using assms by (metis perform.simps(4) prod.collapse)
  from client_prop_run [OF this, of "chunker s"] show ?thesis
    by (auto simp: lookup_call_def connect_call_def elim!: run_of_filter
        dest: connect_kind collections_kind)
next
  case GetIndex
  then obtain r where "index_prop ext s w = (r, s', w')"
    using assms by (metis perform.simps(5) prod.collapse)
  from index_prop_run [OF this, of "chunker s"] show ?thesis
    by (auto simp: lookup_call_def connect_call_def elim!: run_of_filter
        dest: connect_kind collections_kind)
qed

lemma session_frame:
  assumes "session ext reqs s w = (s', w')"
  shows "keeps s s'
       \<and> (cached_client s \<noteq> None \<longrightarrow> filter is_connect w' = filter is_connect w)
       \<and> (cached_index s \<noteq> None \<longrightarrow> filter is_collections w' = filter is_collections w)"
  using assms
proof (induction reqs arbitrary: s w)
  case Nil
  then show ?case by (simp add: keeps_refl)
next
  case (Cons req reqs)
  obtain s1 w1 where p: "perform ext req s w = (s1, w1)"
    by (metis surj_pair)
  with Cons.prems have rest: "session ext reqs s1 w1 = (s', w')"
    by simp
  note a = perform_frame [OF p] and b = Cons.IH [OF rest]
  have k: "keeps s s'"
    using a b by (blast intro: keeps_trans)
  have c: "cached_client s \<noteq> None \<Longrightarrow> cached_client s1 \<noteq> None"
    and i: "cached_index s \<noteq> None \<Longrightarrow> cached_index s1 \<noteq> None"
    using a by (auto simp: keeps_def)
  show ?case
    using k a b c i by auto
qed

subsection \<open>Caching\<close>

lemma client_prop_one_connect:
  assumes "client_prop ext s w = (r, s', w')"
  shows "length (filter is_connect w') \<le> Suc (length (filter is_connect w))"
proof (cases "cached_client s")
  case (Some v)
  then show ?thesis
    using assms by (simp add: client_prop_cached)
next
  case None
  then show ?thesis
    using assms
    by (auto simp: client_prop_first client_func_def Let_def split: if_splits sum.splits)
qed

lemma index_prop_one_fetch:
  assumes "index_prop ext s w = (r, s', w')"
  shows "length (filter is_fetch w') \<le> Suc (length (filter is_fetch w))"
proof (cases "cached_index s")
  case (Some v)
  then show ?thesis
    using assms by (simp add: index_prop_cached)
next
  case None
  obtain r1 s1 w1 where c: "client_collections ext s w = (r1, s1, w1)"
    by (metis prod_cases3)
  have "run_of ext (chunker s) (connect_call s) w w1 (failure r1)"
    using client_collections_run [OF c] by simp
  then have same: "filter is_fetch w1 = filter is_fetch w"
    by (rule run_of_filter) (auto simp: connect_call_def dest: fetch_kind connect_kind)
  show ?thesis
  proof (cases r1)
    case (Inl e)
    then show ?thesis
      using assms None c same
      by (auto simp: index_prop_first index_func_unconnected)
  next
    case (Inr h)
    then show ?thesis
      using assms None same index_func_connected [OF c [unfolded Inr]]
      by (auto simp: index_prop_first split: sum.splits if_splits)
  qed
qed

text \<open>
  Claim C6, as the code has it. \<^verbatim>\<open>_client\<close> and \<^verbatim>\<open>_index\<close> are computed lazily and
  cached. An access that returns a handle has made at most one connect call,
  respectively at most one \<^verbatim>\<open>get\<close> or \<^verbatim>\<open>create\<close> call.
  Once an access has returned a handle, accessing the property again returns the same
  handle, changes nothing and calls nothing (twice is the same as once); and whatever
  the caller does with the instance afterwards, in any order and whether or not those
  requests raise, no further connect call (no further collection lookup) is made and
  the property still evaluates to that handle.
\<close>

theorem properties_cached:
  "(client_prop ext s w = (Inr c, s1, w1) \<longrightarrow>
      length (filter is_connect w1) \<le> Suc (length (filter is_connect w))
    \<and> client_prop ext s1 w1 = (Inr c, s1, w1)
    \<and> (\<forall>reqs s2 w2. session ext reqs s1 w1 = (s2, w2) \<longrightarrow>
          filter is_connect w2 = filter is_connect w1
        \<and> client_prop ext s2 w2 = (Inr c, s2, w2)))
   \<and> (index_prop ext s w = (Inr i, s1', w1') \<longrightarrow>
      length (filter is_fetch w1') \<le> Suc (length (filter is_fetch w))
    \<and> index_prop ext s1' w1' = (Inr i, s1', w1')
    \<and> (\<forall>reqs s2 w2. session ext reqs s1' w1' = (s2, w2) \<longrightarrow>
          filter is_collections w2 = filter is_collections w1'
        \<and> index_prop ext s2 w2 = (Inr i, s2, w2)))"
proof (intro conjI impI allI)
  assume a: "client_prop ext s w = (Inr c, s1, w1)"
  then show "length (filter is_connect w1) \<le> Suc (length (filter is_connect w))"
    by (rule client_prop_one_connect)
  have c1: "cached_client s1 = Some c"
    using client_prop_run [OF a, of "chunker s"] by simp
  then show "client_prop ext s1 w1 = (Inr c, s1, w1)"
    by (rule client_prop_cached)
  fix reqs s2 w2
  assume b: "session ext reqs s1 w1 = (s2, w2)"
  show "filter is_connect w2 = filter is_connect w1"
    using session_frame [OF b] c1 by simp
  have "cached_client s2 = Some c"
    using session_frame [OF b] c1 by (simp add: keeps_def)
  then show "client_prop ext s2 w2 = (Inr c, s2, w2)"
    by (rule client_prop_cached)
next
  assume a: "index_prop ext s w = (Inr i, s1', w1')"
  then show "length (filter is_fetch w1') \<le> Suc (length (filter is_fetch w))"
    by (rule index_prop_one_fetch)
  have c1: "cached_index s1' = Some i"
    using index_prop_run [OF a, of "chunker s"] by simp
  then show "index_prop ext s1' w1' = (Inr i, s1', w1')"
    by (rule index_prop_cached)
  fix reqs s2 w2
  assume b: "session ext reqs s1' w1' = (s2, w2)"
  show "filter is_collections w2 = filter is_collections w1'"
    using session_frame [OF b] c1 by simp
  have "cached_index s2 = Some i"
    using session_frame [OF b] c1 by (simp add: keeps_def)
  then show "index_prop ext s2 w2 = (Inr i, s2, w2)"
    by (rule index_prop_cached)
qed

lemma my_store_client:
  "client_prop memory_db my_store [] =
     (Inr (WeaviateClient 1), connected_store, [ConnectToLocal [(''port'', ''8080'')]])"
  by (simp add: client_prop_first client_func_def Let_def memory_db_def my_store_def
      connected_store_def)

lemma my_store_index:
  "index_prop memory_db my_store [] =
     (Inr 10, indexed_store,
      [ConnectToLocal [(''port'', ''8080'')], CollectionsExists 1 (Some ''my-store-0001''),
       CollectionsCreate 1 [(''name'', ''my-store-0001'')]])"
proof -
  have c: "client_collections memory_db my_store [] =
      (Inr 1, connected_store, [ConnectToLocal [(''port'', ''8080'')]])"
    by (simp add: client_collections_def my_store_client)
  have i: "cached_index my_store = None"
    by (simp add: my_store_def)
  show ?thesis
    by (simp add: index_prop_first [OF i] index_func_connected [OF c])
      (simp add: memory_db_def my_store_def index_params_def indexed_store_def)
qed


text \<open>The example store, and a session that adds, retrieves, reads both properties and closes.\<close>

theorem properties_cached_witness:
  "client_prop memory_db my_store [] =
     (Inr (WeaviateClient 1), connected_store, [ConnectToLocal [(''port'', ''8080'')]])
   \<and> client_prop memory_db connected_store [ConnectToLocal [(''port'', ''8080'')]] =
     (Inr (WeaviateClient 1), connected_store, [ConnectToLocal [(''port'', ''8080'')]])
   \<and> filter is_connect
       (snd (session memory_db my_requests connected_store [ConnectToLocal [(''port'', ''8080'')]])) =
     [ConnectToLocal [(''port'', ''8080'')]]
   \<and> index_prop memory_db my_store [] =
     (Inr 10, indexed_store,
      [ConnectToLocal [(''port'', ''8080'')], CollectionsExists 1 (Some ''my-store-0001''),
       CollectionsCreate 1 [(''name'', ''my-store-0001'')]])
   \<and> filter is_collections
       (snd (session memory_db my_requests indexed_store
          [ConnectToLocal [(''port'', ''8080'')], CollectionsExists 1 (Some ''my-store-0001''),
           CollectionsCreate 1 [(''name'', ''my-store-0001'')]])) =
     [CollectionsExists 1 (Some ''my-store-0001''),
      CollectionsCreate 1 [(''name'', ''my-store-0001'')]]"
proof -
  let ?w1 = "[ConnectToLocal [(''port'', ''8080'')]]"
  let ?w2 = "[ConnectToLocal [(''port'', ''8080'')], CollectionsExists 1 (Some ''my-store-0001''),
       CollectionsCreate 1 [(''name'', ''my-store-0001'')]]"
  note a = my_store_client and b = my_store_index
  have s1: "session memory_db my_requests connected_store ?w1 =
      (fst (session memory_db my_requests connected_store ?w1),
       snd (session memory_db my_requests connected_store ?w1))"
    by (rule prod.collapse [symmetric])
  have s2: "session memory_db my_requests indexed_store ?w2 =
      (fst (session memory_db my_requests indexed_store ?w2),
       snd (session memory_db my_requests indexed_store ?w2))"
    by (rule prod.collapse [symmetric])
  note c = properties_cached [of memory_db my_store "[]" "WeaviateClient 1" connected_store ?w1,
      THEN conjunct1, THEN mp, OF a]
  from c
  have 1: "client_prop memory_db connected_store ?w1 =
      (Inr (WeaviateClient 1), connected_store, ?w1)"
    and "\<forall>reqs s2 w2. session memory_db reqs connected_store ?w1 = (s2, w2) \<longrightarrow>
          filter is_connect w2 = filter is_connect ?w1
        \<and> client_prop memory_db s2 w2 = (Inr (WeaviateClient 1), s2, w2)"
    by blast+
  with s1 have "filter is_connect (snd (session memory_db my_requests connected_store ?w1)) =
      filter is_connect ?w1"
    by blast
  then have 2: "filter is_connect (snd (session memory_db my_requests connected_store ?w1)) = ?w1"
    by simp
  note i = properties_cached [of memory_db my_store "[]" _ _ _ 10 indexed_store ?w2,
      THEN conjunct2, THEN mp, OF b]
  from i
  have "\<forall>reqs s2 w2. session memory_db reqs indexed_store ?w2 = (s2, w2) \<longrightarrow>
          filter is_collections w2 = filter is_collections ?w2
        \<and> index_prop memory_db s2 w2 = (Inr 10, s2, w2)"
    by blast
  with s2 have "filter is_collections (snd (session memory_db my_requests indexed_store ?w2)) =
      filter is_collections ?w2"
    by blast
  then have 3: "filter is_collections (snd (session memory_db my_requests indexed_store ?w2)) =
      [CollectionsExists 1 (Some ''my-store-0001''),
       CollectionsCreate 1 [(''name'', ''my-store-0001'')]]"
    by simp
  from a 1 2 b 3 show ?thesis
    by (intro conjI)
qed

text \<open>
  An access that raises stores nothing, as \<^verbatim>\<open>cached_property\<close> has it: the next access
  runs the function again.
\<close>

lemma client_prop_raises_uncached:
  "client_prop ext s w = (Inl e, s', w') \<Longrightarrow> s' = s \<and> cached_client s = None"
  using client_prop_run [of ext s w "Inl e" s' w' "chunker s"]
  by (cases "cached_client s") (simp_all add: client_prop_cached)

subsection \<open>The collection\<close>

lemma index_prop_connected:
  assumes "cached_index s = None" "client_prop ext s w = (Inr (WeaviateClient c), s1, w1)"
  shows "index_prop ext s w =
     (case collections_exists ext w1 c (index_name s) of
        Inl e \<Rightarrow> (Inl e, s1, w1 @ [CollectionsExists c (index_name s)])
      | Inr found \<Rightarrow>
          if found then
            index_outcome s1
              (w1 @ [CollectionsExists c (index_name s), CollectionsGet c (index_name s)])
              (collections_get ext (w1 @ [CollectionsExists c (index_name s)]) c (index_name s))
          else
            index_outcome s1
              (w1 @ [CollectionsExists c (index_name s),
                     CollectionsCreate c (params_kwargs ext (index_params s))])
              (collections_create ext (w1 @ [CollectionsExists c (index_name s)]) c
                 (params_kwargs ext (index_params s))))"
proof -
  have c: "client_collections ext s w = (Inr c, s1, w1)"
    using assms(2) by (simp add: client_collections_def)
  show ?thesis
    by (simp add: index_prop_first [OF assms(1)] index_func_connected [OF c] index_outcome_def
        split: sum.splits)
qed

lemma client_prop_no_create:
  assumes "client_prop ext s w = (r, s1, w1)"
  shows "filter is_create w1 = filter is_create w"
proof -
  have "run_of ext (chunker s) (connect_call s) w w1 (failure r)"
    using client_prop_run [OF assms] by simp
  then show ?thesis
    by (rule run_of_filter) (auto simp: connect_call_def elim: is_connect.elims)
qed

text \<open>
  Claim C2. On its first access, with the client connected, \<^verbatim>\<open>_index\<close> asks
  \<^verbatim>\<open>collections.exists(index_name)\<close>. If the collection exists it returns what
  \<^verbatim>\<open>collections.get(index_name)\<close> answers and makes no \<^verbatim>\<open>create\<close> call. Otherwise it
  returns what \<^verbatim>\<open>collections.create\<close> answers for the arguments
  \<^verbatim>\<open>vectorstore_params.kwargs()\<close>, taken from the parameters whose \<^verbatim>\<open>name\<close> is
  \<^verbatim>\<open>index_name\<close> and whose other fields are unchanged when \<^verbatim>\<open>index_name\<close> is set (true
  in Python's sense: neither \<^verbatim>\<open>None\<close> nor empty), and from the parameters as they
  are when it is not.
\<close>

theorem index_fetches_or_creates:
  assumes "cached_index s = None"
    and "client_prop ext s w = (Inr (WeaviateClient c), s1, w1)"
  shows "(collections_exists ext w1 c (index_name s) = Inr True \<longrightarrow>
            index_prop ext s w =
              index_outcome s1
                (w1 @ [CollectionsExists c (index_name s), CollectionsGet c (index_name s)])
                (collections_get ext (w1 @ [CollectionsExists c (index_name s)]) c (index_name s))
          \<and> filter is_create (snd (snd (index_prop ext s w))) = filter is_create w)
       \<and> (collections_exists ext w1 c (index_name s) = Inr False \<longrightarrow>
            index_prop ext s w =
              index_outcome s1
                (w1 @ [CollectionsExists c (index_name s),
                       CollectionsCreate c (params_kwargs ext (index_params s))])
                (collections_create ext (w1 @ [CollectionsExists c (index_name s)]) c
                   (params_kwargs ext (index_params s))))
       \<and> (truthy (index_name s) \<longrightarrow>
            name (index_params s) = index_name s
          \<and> params_fields (index_params s) = params_fields (vectorstore_params s))
       \<and> (\<not> truthy (index_name s) \<longrightarrow> index_params s = vectorstore_params s)"
proof -
  note eq = index_prop_connected [OF assms]
  note nc = client_prop_no_create [OF assms(2)]
  have a: "index_prop ext s w =
      index_outcome s1
        (w1 @ [CollectionsExists c (index_name s), CollectionsGet c (index_name s)])
        (collections_get ext (w1 @ [CollectionsExists c (index_name s)]) c (index_name s))
    \<and> filter is_create (snd (snd (index_prop ext s w))) = filter is_create w"
    if "collections_exists ext w1 c (index_name s) = Inr True"
    using that eq nc by (simp add: index_outcome_def split: sum.splits)
  have b: "index_prop ext s w =
      index_outcome s1
        (w1 @ [CollectionsExists c (index_name s),
               CollectionsCreate c (params_kwargs ext (index_params s))])
        (collections_create ext (w1 @ [CollectionsExists c (index_name s)]) c
           (params_kwargs ext (index_params s)))"
    if "collections_exists ext w1 c (index_name s) = Inr False"
    using that eq by simp
  have c: "name (index_params s) = index_name s
      \<and> params_fields (index_params s) = params_fields (vectorstore_params s)"
    if "truthy (index_name s)"
    using that by (simp add: index_params_def)
  have d: "index_params s = vectorstore_params s" if "\<not> truthy (index_name s)"
    using that by (simp add: index_params_def)
  from a b c d show ?thesis
    by blast
qed

text \<open>
  The example store on an empty database creates its collection; a second instance,
  started on the history the first one left, finds it and fetches it.
\<close>

theorem index_fetches_or_creates_witness:
  "cached_index my_store = None \<and> truthy (index_name my_store)
   \<and> index_prop memory_db my_store [] =
       (Inr 10, indexed_store,
        [ConnectToLocal [(''port'', ''8080'')], CollectionsExists 1 (Some ''my-store-0001''),
         CollectionsCreate 1 [(''name'', ''my-store-0001'')]])
   \<and> index_prop memory_db my_store shared_history =
       (Inr 10, indexed_store,
        shared_history @
        [ConnectToLocal [(''port'', ''8080'')], CollectionsExists 1 (Some ''my-store-0001''),
         CollectionsGet 1 (Some ''my-store-0001'')])"
proof -
  have i: "cached_index my_store = None" and n: "truthy (index_name my_store)"
    by (simp_all add: my_store_def)
  have c1: "client_prop memory_db my_store [] =
      (Inr (WeaviateClient 1), connected_store, [ConnectToLocal [(''port'', ''8080'')]])"
    by (rule my_store_client)
  have c2: "client_prop memory_db my_store shared_history =
      (Inr (WeaviateClient 1), connected_store,
       shared_history @ [ConnectToLocal [(''port'', ''8080'')]])"
    by (simp add: client_prop_first client_func_def Let_def memory_db_def my_store_def
        connected_store_def)
  have e1: "collections_exists memory_db [ConnectToLocal [(''port'', ''8080'')]] 1
      (index_name my_store) = Inr False"
    by (simp add: memory_db_def my_store_def)
  have e2: "collections_exists memory_db (shared_history @ [ConnectToLocal [(''port'', ''8080'')]]) 1
      (index_name my_store) = Inr True"
    by (simp add: memory_db_def my_store_def shared_history_def)
  have a: "index_prop memory_db my_store [] =
       (Inr 10, indexed_store,
        [ConnectToLocal [(''port'', ''8080'')], CollectionsExists 1 (Some ''my-store-0001''),
         CollectionsCreate 1 [(''name'', ''my-store-0001'')]])"
    using index_fetches_or_creates [OF i c1] e1
    by (simp add: index_outcome_def index_params_def memory_db_def my_store_def
        indexed_store_def connected_store_def)
  have b: "index_prop memory_db my_store shared_history =
       (Inr 10, indexed_store,
        shared_history @
        [ConnectToLocal [(''port'', ''8080'')], CollectionsExists 1 (Some ''my-store-0001''),
         CollectionsGet 1 (Some ''my-store-0001'')])"
    using index_fetches_or_creates [OF i c2] e2
    by (simp add: index_outcome_def memory_db_def my_store_def
        indexed_store_def connected_store_def shared_history_def)
  show ?thesis
    using i n a b by simp
qed

text \<open>
  Claim C6 as it is written fails when an access raises: nothing is cached, and the next
  access to the property of the same instance makes the call again. Two accesses to
  \<^verbatim>\<open>_client\<close> against a server that refuses make two connect calls; two accesses to
  \<^verbatim>\<open>_index\<close> against a database that lets no collection be created make two
  \<^verbatim>\<open>create\<close> calls (and one connect call, the client being cached).
\<close>

theorem failed_access_is_repeated:
  "client_prop refusing_db my_store [] =
     (Inl (Raised ''connection refused''), my_store, [ConnectToLocal [(''port'', ''8080'')]])
   \<and> client_prop refusing_db my_store [ConnectToLocal [(''port'', ''8080'')]] =
     (Inl (Raised ''connection refused''), my_store,
      [ConnectToLocal [(''port'', ''8080'')], ConnectToLocal [(''port'', ''8080'')]])
   \<and> index_prop readonly_db my_store [] =
     (Inl (Raised ''read only''), connected_store,
      [ConnectToLocal [(''port'', ''8080'')], CollectionsExists 1 (Some ''my-store-0001''),
       CollectionsCreate 1 [(''name'', ''my-store-0001'')]])
   \<and> index_prop readonly_db connected_store
       [ConnectToLocal [(''port'', ''8080'')], CollectionsExists 1 (Some ''my-store-0001''),
        CollectionsCreate 1 [(''name'', ''my-store-0001'')]] =
     (Inl (Raised ''read only''), connected_store,
      [ConnectToLocal [(''port'', ''8080'')], CollectionsExists 1 (Some ''my-store-0001''),
       CollectionsCreate 1 [(''name'', ''my-store-0001'')],
       CollectionsExists 1 (Some ''my-store-0001''),
       CollectionsCreate 1 [(''name'', ''my-store-0001'')]])"
proof -
  have a: "client_prop refusing_db my_store w =
      (Inl (Raised ''connection refused''), my_store, w @ [ConnectToLocal [(''port'', ''8080'')]])"
    for w
    by (simp add: client_prop_first client_func_def Let_def refusing_db_def memory_db_def
        my_store_def)
  have c1: "client_prop readonly_db my_store [] =
      (Inr (WeaviateClient 1), connected_store, [ConnectToLocal [(''port'', ''8080'')]])"
    by (simp add: client_prop_first client_func_def Let_def readonly_db_def memory_db_def
        my_store_def connected_store_def)
  have c2: "client_prop readonly_db connected_store w = (Inr (WeaviateClient 1), connected_store, w)"
    for w
    by (rule client_prop_cached) (simp add: connected_store_def)
  have i1: "cached_index my_store = None" and i2: "cached_index connected_store = None"
    by (simp_all add: my_store_def connected_store_def)
  have b1: "index_prop readonly_db my_store [] =
     (Inl (Raised ''read only''), connected_store,
      [ConnectToLocal [(''port'', ''8080'')], CollectionsExists 1 (Some ''my-store-0001''),
       CollectionsCreate 1 [(''name'', ''my-store-0001'')]])"
    by (simp add: index_prop_connected [OF i1 c1])
      (simp add: readonly_db_def memory_db_def my_store_def index_params_def index_outcome_def)
  have b2: "index_prop readonly_db connected_store
       [ConnectToLocal [(''port'', ''8080'')], CollectionsExists 1 (Some ''my-store-0001''),
        CollectionsCreate 1 [(''name'', ''my-store-0001'')]] =
     (Inl (Raised ''read only''), connected_store,
      [ConnectToLocal [(''port'', ''8080'')], CollectionsExists 1 (Some ''my-store-0001''),
       CollectionsCreate 1 [(''name'', ''my-store-0001'')],
       CollectionsExists 1 (Some ''my-store-0001''),
       CollectionsCreate 1 [(''name'', ''my-store-0001'')]])"
    by (simp add: index_prop_connected [OF i2 c2])
      (simp add: readonly_db_def memory_db_def my_store_def connected_store_def index_params_def
        index_outcome_def)
  from a [of "[]"] a [of "[ConnectToLocal [(''port'', ''8080'')]]"] b1 b2 show ?thesis
    by simp
qed

subsection \<open>Adding documents\<close>

lemma inserted_documents_append:
  "inserted_documents (w @ w') = inserted_documents w @ inserted_documents w'"
  by (simp add: inserted_documents_def)

lemma inserted_documents_filter: "inserted_documents (filter is_data w) = inserted_documents w"
proof (induction w)
  case Nil
  then show ?case by simp
next
  case (Cons c w)
  then show ?case
    by (cases c) (simp_all add: inserted_documents_def)
qed

lemma documents_for_calls:
  assumes "documents_for s input w = (r, w0)"
  shows "filter is_data w0 = filter is_data w"
  using assms by (cases input) auto

lemma index_prop_calls:
  assumes "index_prop ext s w = (r, s1, w1)"
  shows "filter is_data w1 = filter is_data w" and "filter is_chunk w1 = filter is_chunk w"
    and "filter is_near_text w1 = filter is_near_text w"
proof -
  have run: "run_of ext (chunker s) (lookup_call s) w w1 (failure r)"
    using index_prop_run [OF assms] by simp
  show "filter is_data w1 = filter is_data w"
    using run
    by (rule run_of_filter) (auto simp: lookup_call_def connect_call_def dest: data_kind)
  show "filter is_chunk w1 = filter is_chunk w"
    using run
    by (rule run_of_filter)
      (auto simp: lookup_call_def connect_call_def dest: connect_kind collections_kind)
  show "filter is_near_text w1 = filter is_near_text w"
    using run
    by (rule run_of_filter)
      (auto simp: lookup_call_def connect_call_def dest: connect_kind collections_kind)
qed

lemma map_data_object_of:
  "map data_object_of ds =
     map (\<lambda>d. \<lparr>properties = [(''text'', doc_text d)], uuid = doc_id d\<rparr>) ds"
  by (simp add: data_object_of_def)

lemma add_documents_for:
  "documents_for s input w = (Inr documents, w0) \<Longrightarrow>
   add ext s input kw w = add_documents ext s documents kw w0"
  by (simp add: add_def)

text \<open>
  Claim C1, as the code has it. Let \<open>documents\<close> be the list \<^verbatim>\<open>add\<close> works on (the
  argument, or the chunks of a string argument), and let \<^verbatim>\<open>_index\<close> return a collection.
  If the list has exactly one document and the keyword arguments of \<^verbatim>\<open>add\<close> hold
  neither \<^verbatim>\<open>properties\<close> nor \<^verbatim>\<open>uuid\<close>, \<^verbatim>\<open>add\<close> makes exactly one data call, a single
  \<^verbatim>\<open>insert\<close> with properties \<^verbatim>\<open>{"text": documents[0].text}\<close> and uuid
  \<^verbatim>\<open>documents[0].id\<close>. If it has two or more, \<^verbatim>\<open>add\<close> makes exactly one data call, an
  \<^verbatim>\<open>insert_many\<close> of one \<^verbatim>\<open>DataObject\<close> per document, in the same order, each with
  properties \<^verbatim>\<open>{"text": document.text}\<close> and uuid \<^verbatim>\<open>document.id\<close>. In both cases
  \<^verbatim>\<open>add\<close> returns what the call returns or raises.
\<close>

theorem add_inserts_one_or_many:
  assumes "documents_for s input w = (Inr documents, w0)"
    and "index_prop ext s w0 = (Inr coll, s1, w1)"
  shows "(length documents = 1 \<longrightarrow> \<not> has_key kw ''properties'' \<and> \<not> has_key kw ''uuid'' \<longrightarrow>
            add ext s input kw w =
              (map_sum id InsertReturn
                 (data_insert ext w1 coll [(''text'', doc_text (documents ! 0))]
                    (doc_id (documents ! 0)) kw),
               s1,
               w1 @ [DataInsert coll [(''text'', doc_text (documents ! 0))]
                       (doc_id (documents ! 0)) kw])
          \<and> filter is_data (snd (snd (add ext s input kw w))) =
              filter is_data w @
              [DataInsert coll [(''text'', doc_text (documents ! 0))] (doc_id (documents ! 0)) kw])
       \<and> (2 \<le> length documents \<longrightarrow>
            add ext s input kw w =
              (map_sum id InsertManyReturn
                 (data_insert_many ext w1 coll
                    (map (\<lambda>d. \<lparr>properties = [(''text'', doc_text d)], uuid = doc_id d\<rparr>)
                       documents)),
               s1,
               w1 @ [DataInsertMany coll
                       (map (\<lambda>d. \<lparr>properties = [(''text'', doc_text d)], uuid = doc_id d\<rparr>)
                          documents)])
          \<and> filter is_data (snd (snd (add ext s input kw w))) =
              filter is_data w @
              [DataInsertMany coll
                 (map (\<lambda>d. \<lparr>properties = [(''text'', doc_text d)], uuid = doc_id d\<rparr>)
                    documents)])"
proof -
  note eq = add_documents_for [OF assms(1), of ext kw]
  have same: "filter is_data w1 = filter is_data w"
    using index_prop_calls(1) [OF assms(2)] documents_for_calls [OF assms(1)] by simp
  show ?thesis
  proof (intro conjI impI)
    assume "length documents = 1"
      and k: "\<not> has_key kw ''properties'' \<and> \<not> has_key kw ''uuid''"
    then obtain d where d: "documents = [d]"
      by (cases documents) auto
    show one: "add ext s input kw w =
        (map_sum id InsertReturn
           (data_insert ext w1 coll [(''text'', doc_text (documents ! 0))]
              (doc_id (documents ! 0)) kw),
         s1,
         w1 @ [DataInsert coll [(''text'', doc_text (documents ! 0))] (doc_id (documents ! 0)) kw])"
      using d k by (simp add: eq add_documents_indexed [OF assms(2)])
    show "filter is_data (snd (snd (add ext s input kw w))) =
        filter is_data w @
        [DataInsert coll [(''text'', doc_text (documents ! 0))] (doc_id (documents ! 0)) kw]"
      by (simp add: one same)
  next
    assume "2 \<le> length documents"
    then obtain d d' ds where d: "documents = d # d' # ds"
      by (cases documents; cases "tl documents") auto
    show many: "add ext s input kw w =
        (map_sum id InsertManyReturn
           (data_insert_many ext w1 coll
              (map (\<lambda>d. \<lparr>properties = [(''text'', doc_text d)], uuid = doc_id d\<rparr>) documents)),
         s1,
         w1 @ [DataInsertMany coll
                 (map (\<lambda>d. \<lparr>properties = [(''text'', doc_text d)], uuid = doc_id d\<rparr>)
                    documents)])"
      using d by (simp add: eq add_documents_indexed [OF assms(2)] data_object_of_def map_data_object_of)
    show "filter is_data (snd (snd (add ext s input kw w))) =
        filter is_data w @
        [DataInsertMany coll
           (map (\<lambda>d. \<lparr>properties = [(''text'', doc_text d)], uuid = doc_id d\<rparr>) documents)]"
      by (simp add: many same)
  qed
qed

lemma my_store_index_cached:
  "index_prop memory_db indexed_store w = (Inr 10, indexed_store, w)"
  by (rule index_prop_cached) (simp add: indexed_store_def)

text \<open>One document is inserted alone, three are inserted as one batch.\<close>

theorem add_inserts_one_or_many_witness:
  "add memory_db my_store (Docs [doc_a]) [(''vector'', ''v'')] [] =
     (Inr (InsertReturn ''a''), indexed_store,
      [ConnectToLocal [(''port'', ''8080'')], CollectionsExists 1 (Some ''my-store-0001''),
       CollectionsCreate 1 [(''name'', ''my-store-0001'')],
       DataInsert 10 [(''text'', ''alpha'')] ''a'' [(''vector'', ''v'')]])
   \<and> add memory_db indexed_store (Docs [doc_a, doc_b, doc_c]) [] [] =
     (Inr (InsertManyReturn [''a'', ''b'', ''c'']), indexed_store,
      [DataInsertMany 10
         [\<lparr>properties = [(''text'', ''alpha'')], uuid = ''a''\<rparr>,
          \<lparr>properties = [(''text'', ''beta'')], uuid = ''b''\<rparr>,
          \<lparr>properties = [(''text'', ''gamma'')], uuid = ''c''\<rparr>]])"
proof -
  have d1: "documents_for my_store (Docs [doc_a]) [] = (Inr [doc_a], [])"
    and d3: "documents_for indexed_store (Docs [doc_a, doc_b, doc_c]) [] =
      (Inr [doc_a, doc_b, doc_c], [])"
    by simp_all
  have k: "\<not> has_key [(''vector'', ''v'')] ''properties'' \<and> \<not> has_key [(''vector'', ''v'')] ''uuid''"
    by (simp add: has_key_def)
  have l: "length [doc_a] = 1"
    by simp
  have a: "add memory_db my_store (Docs [doc_a]) [(''vector'', ''v'')] [] =
     (Inr (InsertReturn ''a''), indexed_store,
      [ConnectToLocal [(''port'', ''8080'')], CollectionsExists 1 (Some ''my-store-0001''),
       CollectionsCreate 1 [(''name'', ''my-store-0001'')],
       DataInsert 10 [(''text'', ''alpha'')] ''a'' [(''vector'', ''v'')]])"
    using add_inserts_one_or_many [OF d1 my_store_index, THEN conjunct1, THEN mp, OF l, THEN mp,
        OF k, THEN conjunct1]
    by (simp add: doc_a_def memory_db_def)
  have b: "add memory_db indexed_store (Docs [doc_a, doc_b, doc_c]) [] [] =
     (Inr (InsertManyReturn [''a'', ''b'', ''c'']), indexed_store,
      [DataInsertMany 10
         [\<lparr>properties = [(''text'', ''alpha'')], uuid = ''a''\<rparr>,
          \<lparr>properties = [(''text'', ''beta'')], uuid = ''b''\<rparr>,
          \<lparr>properties = [(''text'', ''gamma'')], uuid = ''c''\<rparr>]])"
    using add_inserts_one_or_many [OF d3 my_store_index_cached, of "[]", THEN conjunct2]
    by (simp add: doc_a_def doc_b_def doc_c_def memory_db_def)
  show ?thesis
    using a b by simp
qed

lemma refusing_db_index:
  "index_prop refusing_db my_store w =
     (Inl (Raised ''connection refused''), my_store, w @ [ConnectToLocal [(''port'', ''8080'')]])"
proof -
  have c: "client_prop refusing_db my_store w =
      (Inl (Raised ''connection refused''), my_store, w @ [ConnectToLocal [(''port'', ''8080'')]])"
    by (simp add: client_prop_first client_func_def Let_def refusing_db_def memory_db_def
        my_store_def)
  have i: "cached_index my_store = None"
    by (simp add: my_store_def)
  show ?thesis
    by (simp add: index_prop_first [OF i] index_func_unconnected client_collections_def c)
qed

text \<open>
  Claim C1 as it is written fails in three ways. The empty list has fewer than two
  documents, and \<^verbatim>\<open>add\<close> raises \<open>IndexError\<close> without any insert. With one document
  and a keyword argument \<^verbatim>\<open>uuid\<close>, \<^verbatim>\<open>add\<close> raises \<open>TypeError\<close> without any insert.
  With one document and a server that refuses the connection, \<^verbatim>\<open>_index\<close> raises and
  \<^verbatim>\<open>add\<close> makes no insert.
\<close>

theorem add_can_insert_nothing:
  "length ([] :: document list) < 2
   \<and> add memory_db my_store (Docs []) [] [] =
       (Inl IndexError, indexed_store,
        [ConnectToLocal [(''port'', ''8080'')], CollectionsExists 1 (Some ''my-store-0001''),
         CollectionsCreate 1 [(''name'', ''my-store-0001'')]])
   \<and> filter is_data (snd (snd (add memory_db my_store (Docs []) [] []))) = []
   \<and> length [doc_a] < 2
   \<and> add memory_db indexed_store (Docs [doc_a]) [(''uuid'', ''z'')] [] =
       (Inl TypeError, indexed_store, [])
   \<and> add refusing_db my_store (Docs [doc_a]) [] [] =
       (Inl (Raised ''connection refused''), my_store, [ConnectToLocal [(''port'', ''8080'')]])"
proof -
  have a: "add memory_db my_store (Docs []) [] [] =
       (Inl IndexError, indexed_store,
        [ConnectToLocal [(''port'', ''8080'')], CollectionsExists 1 (Some ''my-store-0001''),
         CollectionsCreate 1 [(''name'', ''my-store-0001'')]])"
    by (simp add: add_def add_documents_indexed [OF my_store_index])
  have b: "add memory_db indexed_store (Docs [doc_a]) [(''uuid'', ''z'')] [] =
       (Inl TypeError, indexed_store, [])"
    by (simp add: add_def add_documents_indexed [OF my_store_index_cached] has_key_def)
  have c: "add refusing_db my_store (Docs [doc_a]) [] [] =
       (Inl (Raised ''connection refused''), my_store, [ConnectToLocal [(''port'', ''8080'')]])"
    using refusing_db_index [of "[]"] by (simp add: add_def add_documents_index_raises)
  show ?thesis
    using a b c by simp
qed

lemma index_prop_inserted:
  assumes "index_prop ext s w = (r, s1, w1)"
  shows "inserted_documents w1 = inserted_documents w"
  using index_prop_calls(1) [OF assms] inserted_documents_filter by metis

lemma add_documents_empty:
  "(\<exists>e. fst (add_documents ext s [] kw w) = Inl e)
   \<and> filter is_data (snd (snd (add_documents ext s [] kw w))) = filter is_data w"
proof -
  obtain r s1 w1 where i: "index_prop ext s w = (r, s1, w1)"
    by (metis prod_cases3)
  show ?thesis
  proof (cases r)
    case (Inl e)
    then show ?thesis
      using i index_prop_calls(1) [OF i] by (simp add: add_documents_index_raises)
  next
    case (Inr coll)
    then show ?thesis
      using i index_prop_calls(1) [OF i] by (simp add: add_documents_indexed)
  qed
qed

text \<open>
  Claim C8. When the list \<^verbatim>\<open>add\<close> works on is empty (an empty list argument, or a string
  the chunker cuts into no chunk), the single-insert branch is taken: \<^verbatim>\<open>add\<close> always
  ends in an exception and makes no insert call; once \<^verbatim>\<open>_index\<close> has returned a
  collection, the exception is the \<open>IndexError\<close> of \<^verbatim>\<open>documents[0]\<close>. With at least one
  document the read is safe: in the single-insert branch \<^verbatim>\<open>documents[0]\<close> is the first
  document, and \<^verbatim>\<open>add\<close> goes on to the call of \<^verbatim>\<open>insert\<close> with its text and id (which
  is the \<open>TypeError\<close> of a repeated keyword when the keyword arguments hold
  \<^verbatim>\<open>properties\<close> or \<^verbatim>\<open>uuid\<close>, and the outcome of \<^verbatim>\<open>insert\<close> otherwise).
\<close>

theorem add_needs_a_document:
  "(documents_for s input w = (Inr [], w0) \<longrightarrow>
      (\<exists>e. fst (add ext s input kw w) = Inl e)
    \<and> filter is_data (snd (snd (add ext s input kw w))) = filter is_data w
    \<and> (index_prop ext s w0 = (Inr coll, s1, w1) \<longrightarrow>
         add ext s input kw w = (Inl IndexError, s1, w1)))
   \<and> (documents_for s input w = (Inr (d # ds), w0) \<longrightarrow>
      index_prop ext s w0 = (Inr coll, s1, w1) \<longrightarrow> length (d # ds) < 2 \<longrightarrow>
      add ext s input kw w =
        (if has_key kw ''properties'' \<or> has_key kw ''uuid'' then (Inl TypeError, s1, w1)
         else
           (map_sum id InsertReturn
              (data_insert ext w1 coll [(''text'', doc_text d)] (doc_id d) kw),
            s1, w1 @ [DataInsert coll [(''text'', doc_text d)] (doc_id d) kw])))"
proof (intro conjI impI)
  assume e: "documents_for s input w = (Inr [], w0)"
  note eq = add_documents_for [OF e, of ext kw]
  show "\<exists>e. fst (add ext s input kw w) = Inl e"
    using add_documents_empty [of ext s kw w0] by (simp add: eq)
  show "filter is_data (snd (snd (add ext s input kw w))) = filter is_data w"
    using add_documents_empty [of ext s kw w0] documents_for_calls [OF e] by (simp add: eq)
  assume "index_prop ext s w0 = (Inr coll, s1, w1)"
  then show "add ext s input kw w = (Inl IndexError, s1, w1)"
    by (simp add: eq add_documents_indexed)
next
  assume "documents_for s input w = (Inr (d # ds), w0)"
    and "index_prop ext s w0 = (Inr coll, s1, w1)" and "length (d # ds) < 2"
  then show "add ext s input kw w =
      (if has_key kw ''properties'' \<or> has_key kw ''uuid'' then (Inl TypeError, s1, w1)
       else
         (map_sum id InsertReturn
            (data_insert ext w1 coll [(''text'', doc_text d)] (doc_id d) kw),
          s1, w1 @ [DataInsert coll [(''text'', doc_text d)] (doc_id d) kw]))"
    by (simp add: add_documents_for add_documents_indexed)
qed

text \<open>
  The example store given an empty list, given the empty string (which the chunker
  cuts into no chunk), and given one document, without and with a keyword \<^verbatim>\<open>uuid\<close>.
\<close>

theorem add_needs_a_document_witness:
  "add memory_db my_store (Docs []) [] [] =
     (Inl IndexError, indexed_store,
      [ConnectToLocal [(''port'', ''8080'')], CollectionsExists 1 (Some ''my-store-0001''),
       CollectionsCreate 1 [(''name'', ''my-store-0001'')]])
   \<and> add memory_db indexed_store (Str []) [] [] =
     (Inl IndexError, indexed_store, [ChunkerChunk []])
   \<and> add memory_db indexed_store (Docs [doc_b]) [] [] =
     (Inr (InsertReturn ''b''), indexed_store, [DataInsert 10 [(''text'', ''beta'')] ''b'' []])
   \<and> add memory_db indexed_store (Docs [doc_b]) [(''uuid'', ''z'')] [] =
     (Inl TypeError, indexed_store, [])"
proof -
  have d0: "documents_for my_store (Docs []) [] = (Inr [], [])"
    by simp
  have d1: "documents_for indexed_store (Str []) [] = (Inr [], [ChunkerChunk []])"
    by (simp add: indexed_store_def connected_store_def my_store_def word_chunker_def)
  have d2: "documents_for indexed_store (Docs [doc_b]) [] = (Inr [doc_b], [])"
    by simp
  have l: "length [doc_b] < 2"
    by simp
  have a: "add memory_db my_store (Docs []) [] [] =
     (Inl IndexError, indexed_store,
      [ConnectToLocal [(''port'', ''8080'')], CollectionsExists 1 (Some ''my-store-0001''),
       CollectionsCreate 1 [(''name'', ''my-store-0001'')]])"
    using add_needs_a_document [THEN conjunct1, THEN mp, OF d0, THEN conjunct2, THEN conjunct2,
        THEN mp, OF my_store_index] .
  have b: "add memory_db indexed_store (Str []) [] [] =
     (Inl IndexError, indexed_store, [ChunkerChunk []])"
    using add_needs_a_document [THEN conjunct1, THEN mp, OF d1, THEN conjunct2, THEN conjunct2,
        THEN mp, OF my_store_index_cached] .
  have c: "add memory_db indexed_store (Docs [doc_b]) [] [] =
     (Inr (InsertReturn ''b''), indexed_store, [DataInsert 10 [(''text'', ''beta'')] ''b'' []])"
    using add_needs_a_document [THEN conjunct2, THEN mp, OF d2, THEN mp,
        OF my_store_index_cached, THEN mp, OF l, of "[]"]
    by (simp add: doc_b_def memory_db_def has_key_def)
  have d: "add memory_db indexed_store (Docs [doc_b]) [(''uuid'', ''z'')] [] =
     (Inl TypeError, indexed_store, [])"
    using add_needs_a_document [THEN conjunct2, THEN mp, OF d2, THEN mp,
        OF my_store_index_cached, THEN mp, OF l, of "[(''uuid'', ''z'')]"]
    by (simp add: has_key_def)
  show ?thesis
    using a b c d by simp
qed

lemma inserted_documents_call: "inserted_documents [c] = documents_of_call c"
  by (simp add: inserted_documents_def)

lemma text_of_text: "text_of [(''text'', x)] = x"
  by (simp add: text_of_def)

lemma add_documents_inserted:
  assumes "index_prop ext s w = (Inr coll, s1, w1)"
    and "length documents = 1 \<longrightarrow> \<not> has_key kw ''properties'' \<and> \<not> has_key kw ''uuid''"
  shows "inserted_documents (snd (snd (add_documents ext s documents kw w))) =
     inserted_documents w @ documents"
proof -
  note same = index_prop_inserted [OF assms(1)]
  have many: "map ((\<lambda>ob. \<lparr>doc_text = text_of (properties ob), doc_id = uuid ob\<rparr>) \<circ> data_object_of)
      ds = ds" for ds
    by (induction ds) (simp_all add: data_object_of_def text_of_text)
  show ?thesis
  proof (cases documents)
    case Nil
    then show ?thesis
      by (simp add: add_documents_indexed [OF assms(1)] same)
  next
    case (Cons d ds)
    then show ?thesis
      using assms(2)
      by (cases ds)
        (simp_all add: add_documents_indexed [OF assms(1)] same inserted_documents_append
          inserted_documents_call text_of_text data_object_of_def many)
  qed
qed

lemma add_documents_not_inserted:
  assumes "(\<exists>e. fst (index_prop ext s w) = Inl e)
    \<or> length documents = 1 \<and> (has_key kw ''properties'' \<or> has_key kw ''uuid'')"
  shows "(\<exists>e. fst (add_documents ext s documents kw w) = Inl e)
       \<and> filter is_data (snd (snd (add_documents ext s documents kw w))) = filter is_data w"
proof -
  obtain r s1 w1 where i: "index_prop ext s w = (r, s1, w1)"
    by (metis prod_cases3)
  note same = index_prop_calls(1) [OF i]
  show ?thesis
  proof (cases r)
    case (Inl e)
    then show ?thesis
      using i same by (simp add: add_documents_index_raises)
  next
    case (Inr coll)
    then have "length documents = 1 \<and> (has_key kw ''properties'' \<or> has_key kw ''uuid'')"
      using assms i by simp
    then obtain d where "documents = [d]" "has_key kw ''properties'' \<or> has_key kw ''uuid''"
      by (cases documents) auto
    then show ?thesis
      using i Inr same by (simp add: add_documents_indexed)
  qed
qed

lemma add_documents_chunks:
  "filter is_chunk (snd (snd (add_documents ext s documents kw w))) = filter is_chunk w"
proof -
  obtain r s' w' where a: "add_documents ext s documents kw w = (r, s', w')"
    by (metis prod_cases3)
  have "run_of ext (chunker s) (\<lambda>c. is_data c \<or> lookup_call s c) w w' (failure r)"
    using add_documents_run [OF a] by simp
  then have "filter is_chunk w' = filter is_chunk w"
    by (rule run_of_filter)
      (auto simp: lookup_call_def connect_call_def
        dest: data_kind connect_kind collections_kind)
  then show ?thesis
    by (simp add: a)
qed

text \<open>
  Claim C3, as the code has it. Given a string, \<^verbatim>\<open>add\<close> calls \<^verbatim>\<open>self.chunker.chunk\<close> on
  it once and then does exactly what it does when given the chunks as a list. Given a
  list of documents, \<^verbatim>\<open>add\<close> does not call the chunker. When \<^verbatim>\<open>_index\<close> returns a
  collection and, for a list of exactly one document, the keyword arguments hold neither
  \<^verbatim>\<open>properties\<close> nor \<^verbatim>\<open>uuid\<close>, the documents inserted (read back from the insert calls)
  are the chunks, respectively the list as it is, in order. When \<^verbatim>\<open>_index\<close> raises, or
  the list has one document and the keyword arguments hold \<^verbatim>\<open>properties\<close> or
  \<^verbatim>\<open>uuid\<close>, \<^verbatim>\<open>add\<close> raises and inserts nothing.
\<close>

theorem add_chunks_strings_only:
  "(chunker s w t = Inr chunks \<longrightarrow>
      add ext s (Str t) kw w = add ext s (Docs chunks) kw (w @ [ChunkerChunk t])
    \<and> filter is_chunk (snd (snd (add ext s (Str t) kw w))) = filter is_chunk w @ [ChunkerChunk t]
    \<and> (index_prop ext s (w @ [ChunkerChunk t]) = (Inr coll, s1, w1) \<longrightarrow>
       (length chunks = 1 \<longrightarrow> \<not> has_key kw ''properties'' \<and> \<not> has_key kw ''uuid'') \<longrightarrow>
         inserted_documents (snd (snd (add ext s (Str t) kw w))) =
           inserted_documents w @ chunks))
   \<and> filter is_chunk (snd (snd (add ext s (Docs documents) kw w))) = filter is_chunk w
   \<and> (index_prop ext s w = (Inr coll', s1', w1') \<longrightarrow>
      (length documents = 1 \<longrightarrow> \<not> has_key kw ''properties'' \<and> \<not> has_key kw ''uuid'') \<longrightarrow>
        inserted_documents (snd (snd (add ext s (Docs documents) kw w))) =
          inserted_documents w @ documents)
   \<and> ((\<exists>e. fst (index_prop ext s w) = Inl e)
        \<or> length documents = 1 \<and> (has_key kw ''properties'' \<or> has_key kw ''uuid'') \<longrightarrow>
        (\<exists>e. fst (add ext s (Docs documents) kw w) = Inl e)
      \<and> filter is_data (snd (snd (add ext s (Docs documents) kw w))) = filter is_data w)"
proof (intro conjI impI)
  show "filter is_chunk (snd (snd (add ext s (Docs documents) kw w))) = filter is_chunk w"
    by (simp add: add_def add_documents_chunks)
  show "inserted_documents (snd (snd (add ext s (Docs documents) kw w))) =
      inserted_documents w @ documents"
    if "index_prop ext s w = (Inr coll', s1', w1')"
      and "length documents = 1 \<longrightarrow> \<not> has_key kw ''properties'' \<and> \<not> has_key kw ''uuid''"
    using add_documents_inserted [OF that] by (simp add: add_def)
  show "\<exists>e. fst (add ext s (Docs documents) kw w) = Inl e"
    and "filter is_data (snd (snd (add ext s (Docs documents) kw w))) = filter is_data w"
    if "(\<exists>e. fst (index_prop ext s w) = Inl e)
      \<or> length documents = 1 \<and> (has_key kw ''properties'' \<or> has_key kw ''uuid'')"
    using add_documents_not_inserted [OF that] by (simp_all add: add_def)
next
  assume c: "chunker s w t = Inr chunks"
  show eq: "add ext s (Str t) kw w = add ext s (Docs chunks) kw (w @ [ChunkerChunk t])"
    using c by (simp add: add_def)
  show "filter is_chunk (snd (snd (add ext s (Str t) kw w))) = filter is_chunk w @ [ChunkerChunk t]"
    using c by (simp add: add_def add_documents_chunks)
  show "inserted_documents (snd (snd (add ext s (Str t) kw w))) = inserted_documents w @ chunks"
    if "index_prop ext s (w @ [ChunkerChunk t]) = (Inr coll, s1, w1)"
      and "length chunks = 1 \<longrightarrow> \<not> has_key kw ''properties'' \<and> \<not> has_key kw ''uuid''"
    using add_documents_inserted [OF that] c
    by (simp add: add_def inserted_documents_append inserted_documents_call)
qed

text \<open>
  The example store, its collection known, given the text \<^verbatim>\<open>to be\<close> and given two
  documents.
\<close>

theorem add_chunks_strings_only_witness:
  "chunker indexed_store [] ''to be'' =
     Inr [\<lparr>doc_text = ''to'', doc_id = ''i''\<rparr>, \<lparr>doc_text = ''be'', doc_id = ''ii''\<rparr>]
   \<and> inserted_documents (snd (snd (add memory_db indexed_store (Str ''to be'') [] []))) =
     [\<lparr>doc_text = ''to'', doc_id = ''i''\<rparr>, \<lparr>doc_text = ''be'', doc_id = ''ii''\<rparr>]
   \<and> filter is_chunk (snd (snd (add memory_db indexed_store (Str ''to be'') [] []))) =
     [ChunkerChunk ''to be'']
   \<and> inserted_documents (snd (snd (add memory_db indexed_store (Docs [doc_a, doc_b]) [] []))) =
     [doc_a, doc_b]
   \<and> filter is_chunk (snd (snd (add memory_db indexed_store (Docs [doc_a, doc_b]) [] []))) = []
   \<and> filter is_data
       (snd (snd (add memory_db indexed_store (Docs [doc_a]) [(''uuid'', ''z'')] []))) = []"
proof -
  have c: "chunker indexed_store [] ''to be'' =
     Inr [\<lparr>doc_text = ''to'', doc_id = ''i''\<rparr>, \<lparr>doc_text = ''be'', doc_id = ''ii''\<rparr>]"
    by (simp add: indexed_store_def connected_store_def my_store_def word_chunker_def)
  have l2: "length [\<lparr>doc_text = ''to'', doc_id = ''i''\<rparr>, \<lparr>doc_text = ''be'', doc_id = ''ii''\<rparr>] = 1
      \<longrightarrow> \<not> has_key [] ''properties'' \<and> \<not> has_key [] ''uuid''"
    and l2': "length [doc_a, doc_b] = 1 \<longrightarrow> \<not> has_key [] ''properties'' \<and> \<not> has_key [] ''uuid''"
    by simp_all
  have k: "(\<exists>e. fst (index_prop memory_db indexed_store []) = Inl e)
      \<or> length [doc_a] = 1 \<and> (has_key [(''uuid'', ''z'')] ''properties''
          \<or> has_key [(''uuid'', ''z'')] ''uuid'')"
    by (simp add: has_key_def)
  note str = add_chunks_strings_only [THEN conjunct1, THEN mp, OF c, THEN conjunct2]
  note docs = add_chunks_strings_only [THEN conjunct2]
  have 1: "inserted_documents (snd (snd (add memory_db indexed_store (Str ''to be'') [] []))) =
     [\<lparr>doc_text = ''to'', doc_id = ''i''\<rparr>, \<lparr>doc_text = ''be'', doc_id = ''ii''\<rparr>]"
    using str [THEN conjunct2, THEN mp, OF my_store_index_cached, THEN mp, OF l2]
    by (simp add: inserted_documents_def)
  have 2: "filter is_chunk (snd (snd (add memory_db indexed_store (Str ''to be'') [] []))) =
     [ChunkerChunk ''to be'']"
    using str [THEN conjunct1, of memory_db "[]"] by simp
  have 3: "inserted_documents (snd (snd (add memory_db indexed_store (Docs [doc_a, doc_b]) [] []))) =
     [doc_a, doc_b]"
    using docs [THEN conjunct2, THEN conjunct1, THEN mp, OF my_store_index_cached, THEN mp, OF l2']
    by (simp add: inserted_documents_def)
  have 4: "filter is_chunk (snd (snd (add memory_db indexed_store (Docs [doc_a, doc_b]) [] []))) = []"
    using docs [THEN conjunct1, of memory_db indexed_store "[doc_a, doc_b]" "[]" "[]"] by simp
  have 5: "filter is_data
       (snd (snd (add memory_db indexed_store (Docs [doc_a]) [(''uuid'', ''z'')] []))) = []"
    using docs [THEN conjunct2, THEN conjunct2, THEN mp, OF k] by simp
  show ?thesis
    using c 1 2 3 4 5 by simp
qed

text \<open>
  Claim C3 as it is written fails where \<^verbatim>\<open>add\<close> does not reach the insert: the one
  chunk of the text \<^verbatim>\<open>to\<close>, and the list of one document, are not inserted when the
  keyword arguments hold \<^verbatim>\<open>uuid\<close>; the list is not inserted when the server refuses the
  connection.
\<close>

theorem add_can_insert_none_of_the_list:
  "chunker indexed_store [] ''to'' = Inr [\<lparr>doc_text = ''to'', doc_id = ''i''\<rparr>]
   \<and> add memory_db indexed_store (Str ''to'') [(''uuid'', ''z'')] [] =
       (Inl TypeError, indexed_store, [ChunkerChunk ''to''])
   \<and> inserted_documents [ChunkerChunk ''to''] = []
   \<and> add memory_db indexed_store (Docs [doc_a]) [(''uuid'', ''z'')] [] =
       (Inl TypeError, indexed_store, [])
   \<and> add refusing_db my_store (Docs [doc_a]) [] [] =
       (Inl (Raised ''connection refused''), my_store, [ConnectToLocal [(''port'', ''8080'')]])
   \<and> inserted_documents [ConnectToLocal [(''port'', ''8080'')]] = []"
proof -
  have c: "chunker indexed_store [] ''to'' = Inr [\<lparr>doc_text = ''to'', doc_id = ''i''\<rparr>]"
    by (simp add: indexed_store_def connected_store_def my_store_def word_chunker_def)
  have a: "add memory_db indexed_store (Str ''to'') [(''uuid'', ''z'')] [] =
       (Inl TypeError, indexed_store, [ChunkerChunk ''to''])"
    using c by (simp add: add_def add_documents_indexed [OF my_store_index_cached] has_key_def)
  have b: "add memory_db indexed_store (Docs [doc_a]) [(''uuid'', ''z'')] [] =
       (Inl TypeError, indexed_store, [])"
    by (simp add: add_def add_documents_indexed [OF my_store_index_cached] has_key_def)
  have d: "add refusing_db my_store (Docs [doc_a]) [] [] =
       (Inl (Raised ''connection refused''), my_store, [ConnectToLocal [(''port'', ''8080'')]])"
    using refusing_db_index [of "[]"] by (simp add: add_def add_documents_index_raises)
  show ?thesis
    using c a b d by (simp add: inserted_documents_def)
qed

subsection \<open>Retrieving\<close>

lemma retrieve_indexed:
  assumes "index_prop ext s w = (Inr coll, s1, w1)"
  shows "retrieve ext s t kw w =
     (if has_key kw ''query'' then (Inl TypeError, s1, w1)
      else
        (case query_near_text ext w1 coll t kw of
           Inl e \<Rightarrow> Inl e
         | Inr query_result \<Rightarrow>
             (case objects query_result of
                [] \<Rightarrow> Inl IndexError
              | result # _ \<Rightarrow> from_response ext result),
         s1, w1 @ [QueryNearText coll t kw]))"
  using assms by (simp add: retrieve_def split: sum.splits list.splits)

text \<open>
  Claim C4, as the code has it. Once \<^verbatim>\<open>_index\<close> has returned the collection, and when
  the keyword arguments of \<^verbatim>\<open>retrieve\<close> do not hold \<^verbatim>\<open>query\<close>, \<^verbatim>\<open>retrieve\<close> makes
  exactly one more call, \<^verbatim>\<open>near_text\<close> on that collection with the query text and the
  keyword arguments, and no other \<^verbatim>\<open>near_text\<close> call. When the query answers with a
  list of objects that has a first element, \<^verbatim>\<open>retrieve\<close> returns
  \<^verbatim>\<open>WeaviateQueryResult.from_response\<close> of that first object, whatever the other objects
  are.
\<close>

theorem retrieve_returns_first_object:
  assumes "index_prop ext s w = (Inr coll, s1, w1)"
    and "\<not> has_key kw ''query''"
  shows "snd (snd (retrieve ext s t kw w)) = w1 @ [QueryNearText coll t kw]
       \<and> filter is_near_text (snd (snd (retrieve ext s t kw w))) =
           filter is_near_text w @ [QueryNearText coll t kw]
       \<and> (\<forall>q result others.
            query_near_text ext w1 coll t kw = Inr q \<and> objects q = result # others \<longrightarrow>
            retrieve ext s t kw w =
              (from_response ext result, s1, w1 @ [QueryNearText coll t kw]))"
  using index_prop_calls(3) [OF assms(1)] assms(2)
  by (simp add: retrieve_indexed [OF assms(1)])

text \<open>The example store after three documents were added: the latest comes first.\<close>

theorem retrieve_returns_first_object_witness:
  "objects (projr (query_near_text memory_db three_added 10 ''my question'' [])) =
     [\<lparr>object_properties = [(''text'', ''gamma'')], object_uuid = ''c''\<rparr>,
      \<lparr>object_properties = [(''text'', ''beta'')], object_uuid = ''b''\<rparr>,
      \<lparr>object_properties = [(''text'', ''alpha'')], object_uuid = ''a''\<rparr>]
   \<and> retrieve memory_db indexed_store ''my question'' [] three_added =
     (Inr \<lparr>result_fields = [(''text'', ''gamma'')]\<rparr>, indexed_store,
      three_added @ [QueryNearText 10 ''my question'' []])"
proof -
  have q: "query_near_text memory_db three_added 10 ''my question'' [] =
      Inr \<lparr>objects =
        [\<lparr>object_properties = [(''text'', ''gamma'')], object_uuid = ''c''\<rparr>,
         \<lparr>object_properties = [(''text'', ''beta'')], object_uuid = ''b''\<rparr>,
         \<lparr>object_properties = [(''text'', ''alpha'')], object_uuid = ''a''\<rparr>]\<rparr>"
    by (simp add: memory_db_def three_added_def)
  have k: "\<not> has_key [] ''query''"
    by (simp add: has_key_def)
  have o: "objects \<lparr>objects =
        [\<lparr>object_properties = [(''text'', ''gamma'')], object_uuid = ''c''\<rparr>,
         \<lparr>object_properties = [(''text'', ''beta'')], object_uuid = ''b''\<rparr>,
         \<lparr>object_properties = [(''text'', ''alpha'')], object_uuid = ''a''\<rparr>]\<rparr> =
      \<lparr>object_properties = [(''text'', ''gamma'')], object_uuid = ''c''\<rparr> #
        [\<lparr>object_properties = [(''text'', ''beta'')], object_uuid = ''b''\<rparr>,
         \<lparr>object_properties = [(''text'', ''alpha'')], object_uuid = ''a''\<rparr>]"
    by simp
  have r: "retrieve memory_db indexed_store ''my question'' [] three_added =
     (from_response memory_db \<lparr>object_properties = [(''text'', ''gamma'')], object_uuid = ''c''\<rparr>,
      indexed_store, three_added @ [QueryNearText 10 ''my question'' []])"
    by (rule retrieve_returns_first_object [OF my_store_index_cached k, THEN conjunct2,
          THEN conjunct2, rule_format, OF conjI, OF q o])
  have f: "from_response memory_db
      \<lparr>object_properties = [(''text'', ''gamma'')], object_uuid = ''c''\<rparr> =
      Inr \<lparr>result_fields = [(''text'', ''gamma'')]\<rparr>"
    by (simp add: memory_db_def)
  have p: "objects (projr (query_near_text memory_db three_added 10 ''my question'' [])) =
     [\<lparr>object_properties = [(''text'', ''gamma'')], object_uuid = ''c''\<rparr>,
      \<lparr>object_properties = [(''text'', ''beta'')], object_uuid = ''b''\<rparr>,
      \<lparr>object_properties = [(''text'', ''alpha'')], object_uuid = ''a''\<rparr>]"
    by (simp only: q sum.sel) simp
  show ?thesis
    using p r f by simp
qed

text \<open>
  Claim C4 as it is written fails in three ways. With a keyword argument \<^verbatim>\<open>query\<close>,
  \<^verbatim>\<open>retrieve\<close> raises \<open>TypeError\<close> and makes no \<^verbatim>\<open>near_text\<close> call. With a server that
  refuses the connection, \<^verbatim>\<open>_index\<close> raises and no query is made. With a query that
  answers with no object, \<^verbatim>\<open>retrieve\<close> raises \<open>IndexError\<close> and returns nothing.
\<close>

theorem retrieve_can_return_nothing:
  "retrieve memory_db indexed_store ''my question'' [(''query'', ''other'')] three_added =
     (Inl TypeError, indexed_store, three_added)
   \<and> filter is_near_text three_added = []
   \<and> retrieve refusing_db my_store ''my question'' [] [] =
     (Inl (Raised ''connection refused''), my_store, [ConnectToLocal [(''port'', ''8080'')]])
   \<and> retrieve memory_db indexed_store ''my question'' [] [] =
     (Inl IndexError, indexed_store, [QueryNearText 10 ''my question'' []])"
proof -
  have a: "retrieve memory_db indexed_store ''my question'' [(''query'', ''other'')] three_added =
     (Inl TypeError, indexed_store, three_added)"
    by (simp add: retrieve_indexed [OF my_store_index_cached] has_key_def)
  have b: "retrieve refusing_db my_store ''my question'' [] [] =
     (Inl (Raised ''connection refused''), my_store, [ConnectToLocal [(''port'', ''8080'')]])"
    using refusing_db_index [of "[]"] by (simp add: retrieve_index_raises)
  have q0: "query_near_text memory_db [] 10 ''my question'' [] = Inr \<lparr>objects = []\<rparr>"
    by (simp add: memory_db_def)
  have c: "retrieve memory_db indexed_store ''my question'' [] [] =
     (Inl IndexError, indexed_store, [QueryNearText 10 ''my question'' []])"
    by (simp add: retrieve_indexed [OF my_store_index_cached] has_key_def q0)
  show ?thesis
    using a b c by (simp add: three_added_def)
qed



subsection \<open>Exceptions\<close>

lemma propagated_nth:
  assumes "propagated ext ch w evs out" "n < length evs"
    "raised ext ch (w @ take n evs) (evs ! n) = Some e"
  shows "Suc n = length evs \<and> out = Some e"
  using assms
proof (induction evs arbitrary: w n)
  case Nil
  then show ?case by simp
next
  case (Cons c cs)
  show ?case
  proof (cases n)
    case 0
    then show ?thesis
      using Cons.prems by simp
  next
    case (Suc m)
    have none: "raised ext ch w c = None"
    proof (cases "raised ext ch w c")
      case None
      then show ?thesis .
    next
      case (Some e')
      then have "cs = []"
        using Cons.prems(1) by simp
      then show ?thesis
        using Cons.prems(2) Suc by simp
    qed
    then have "propagated ext ch (w @ [c]) cs out"
      using Cons.prems(1) by simp
    moreover have "m < length cs"
      using Cons.prems(2) Suc by simp
    moreover have "raised ext ch ((w @ [c]) @ take m cs) (cs ! m) = Some e"
      using Cons.prems(3) Suc by simp
    ultimately have "Suc m = length cs \<and> out = Some e"
      by (rule Cons.IH)
    then show ?thesis
      using Suc by simp
  qed
qed

lemma run_of_raised:
  assumes "run_of ext ch P w w' (failure r)"
  shows "\<exists>calls. w' = w @ calls \<and>
     (\<forall>n e. n < length calls \<longrightarrow>
        raised ext ch (w @ take n calls) (calls ! n) = Some e \<longrightarrow>
        Suc n = length calls \<and> r = Inl e)"
proof -
  from assms obtain calls where c: "w' = w @ calls" "propagated ext ch w calls (failure r)"
    by (rule run_ofE)
  have "Suc n = length calls \<and> r = Inl e"
    if "n < length calls" "raised ext ch (w @ take n calls) (calls ! n) = Some e" for n e
    using propagated_nth [OF c(2) that] by simp
  with c(1) show ?thesis
    by blast
qed

text \<open>
  Claim C7. \<^verbatim>\<open>add\<close> and \<^verbatim>\<open>retrieve\<close> handle no exception. The history of a run is the
  history before it followed by the calls the run made; whenever one of those calls
  (chunking, connect, \<^verbatim>\<open>collections.exists\<close>, \<^verbatim>\<open>get\<close>, \<^verbatim>\<open>create\<close>, \<^verbatim>\<open>insert\<close>,
  \<^verbatim>\<open>insert_many\<close>, \<^verbatim>\<open>near_text\<close>) raised an exception, it is the last call of the run
  (nothing is retried and nothing else is tried) and the run ends in exactly that
  exception (it is not caught, wrapped or translated).
\<close>

theorem exceptions_propagate:
  "(add ext s input kw w = (r, s', w') \<longrightarrow>
      (\<exists>calls. w' = w @ calls \<and>
         (\<forall>n e. n < length calls \<longrightarrow>
            raised ext (chunker s) (w @ take n calls) (calls ! n) = Some e \<longrightarrow>
            Suc n = length calls \<and> r = Inl e)))
   \<and> (retrieve ext s t kw w = (r', s'', w'') \<longrightarrow>
      (\<exists>calls. w'' = w @ calls \<and>
         (\<forall>n e. n < length calls \<longrightarrow>
            raised ext (chunker s) (w @ take n calls) (calls ! n) = Some e \<longrightarrow>
            Suc n = length calls \<and> r' = Inl e)))"
proof (intro conjI impI)
  assume "add ext s input kw w = (r, s', w')"
  then have "run_of ext (chunker s) (\<lambda>c. is_chunk c \<or> is_data c \<or> lookup_call s c) w w'
      (failure r)"
    using add_run by blast
  then show "\<exists>calls. w' = w @ calls \<and>
      (\<forall>n e. n < length calls \<longrightarrow>
         raised ext (chunker s) (w @ take n calls) (calls ! n) = Some e \<longrightarrow>
         Suc n = length calls \<and> r = Inl e)"
    by (rule run_of_raised)
next
  assume "retrieve ext s t kw w = (r', s'', w'')"
  then have "run_of ext (chunker s) (\<lambda>c. is_near_text c \<or> lookup_call s c) w w'' (failure r')"
    using retrieve_run by blast
  then show "\<exists>calls. w'' = w @ calls \<and>
      (\<forall>n e. n < length calls \<longrightarrow>
         raised ext (chunker s) (w @ take n calls) (calls ! n) = Some e \<longrightarrow>
         Suc n = length calls \<and> r' = Inl e)"
    by (rule run_of_raised)
qed

lemma failing_db_index:
  "index_prop failing_db my_store [] =
     (Inr 10, indexed_store,
      [ConnectToLocal [(''port'', ''8080'')], CollectionsExists 1 (Some ''my-store-0001''),
       CollectionsCreate 1 [(''name'', ''my-store-0001'')]])"
proof -
  have p: "client_prop failing_db my_store [] =
      (Inr (WeaviateClient 1), connected_store, [ConnectToLocal [(''port'', ''8080'')]])"
    by (simp add: client_prop_first client_func_def Let_def failing_db_def memory_db_def
        my_store_def connected_store_def)
  have i: "cached_index my_store = None"
    by (simp add: my_store_def)
  show ?thesis
    by (simp add: index_prop_connected [OF i p])
      (simp add: failing_db_def memory_db_def my_store_def index_params_def indexed_store_def
        connected_store_def index_outcome_def)
qed

text \<open>
  The example store against the failing database: \<^verbatim>\<open>add\<close> ends in the exception of
  \<^verbatim>\<open>insert\<close>, its fourth call, and \<^verbatim>\<open>retrieve\<close> in the exception of \<^verbatim>\<open>near_text\<close>.
\<close>

theorem exceptions_propagate_witness:
  "snd (snd (add failing_db my_store (Docs [doc_a]) [] [])) =
     [ConnectToLocal [(''port'', ''8080'')], CollectionsExists 1 (Some ''my-store-0001''),
      CollectionsCreate 1 [(''name'', ''my-store-0001'')],
      DataInsert 10 [(''text'', ''alpha'')] ''a'' []]
   \<and> raised failing_db (chunker my_store)
       [ConnectToLocal [(''port'', ''8080'')], CollectionsExists 1 (Some ''my-store-0001''),
        CollectionsCreate 1 [(''name'', ''my-store-0001'')]]
       (DataInsert 10 [(''text'', ''alpha'')] ''a'' []) = Some (Raised ''disk full'')
   \<and> fst (add failing_db my_store (Docs [doc_a]) [] []) = Inl (Raised ''disk full'')
   \<and> snd (snd (retrieve failing_db indexed_store ''my question'' [] [])) =
     [QueryNearText 10 ''my question'' []]
   \<and> raised failing_db (chunker my_store) [] (QueryNearText 10 ''my question'' []) =
     Some (Raised ''timed out'')
   \<and> fst (retrieve failing_db indexed_store ''my question'' [] []) = Inl (Raised ''timed out'')"
proof -
  let ?w = "[ConnectToLocal [(''port'', ''8080'')], CollectionsExists 1 (Some ''my-store-0001''),
      CollectionsCreate 1 [(''name'', ''my-store-0001'')],
      DataInsert 10 [(''text'', ''alpha'')] ''a'' []]"
  let ?a = "add failing_db my_store (Docs [doc_a]) [] []"
  let ?r = "retrieve failing_db indexed_store ''my question'' [] []"
  have wa: "snd (snd ?a) = ?w"
    by (simp add: add_def add_documents_indexed [OF failing_db_index] doc_a_def has_key_def)
  have ra: "raised failing_db (chunker my_store) ([] @ take 3 ?w) (?w ! 3) =
      Some (Raised ''disk full'')"
    by (simp add: failing_db_def)
  have "\<exists>calls. snd (snd ?a) = [] @ calls \<and>
      (\<forall>n e. n < length calls \<longrightarrow>
         raised failing_db (chunker my_store) ([] @ take n calls) (calls ! n) = Some e \<longrightarrow>
         Suc n = length calls \<and> fst ?a = Inl e)"
    by (rule exceptions_propagate [of failing_db my_store "Docs [doc_a]" "[]" "[]" "fst ?a"
          "fst (snd ?a)" "snd (snd ?a)", THEN conjunct1, THEN mp]) simp
  then have "\<forall>n e. n < length ?w \<longrightarrow>
      raised failing_db (chunker my_store) ([] @ take n ?w) (?w ! n) = Some e \<longrightarrow>
      Suc n = length ?w \<and> fst ?a = Inl e"
    by (simp only: wa append_Nil) blast
  then have "3 < length ?w \<longrightarrow>
      raised failing_db (chunker my_store) ([] @ take 3 ?w) (?w ! 3) = Some (Raised ''disk full'') \<longrightarrow>
      Suc 3 = length ?w \<and> fst ?a = Inl (Raised ''disk full'')"
    by blast
  then have fa: "fst ?a = Inl (Raised ''disk full'')"
    using ra by simp
  have i: "index_prop failing_db indexed_store [] = (Inr 10, indexed_store, [])"
    by (rule index_prop_cached) (simp add: indexed_store_def)
  have wr: "snd (snd ?r) = [QueryNearText 10 ''my question'' []]"
    by (simp add: retrieve_indexed [OF i] has_key_def)
  have rr: "raised failing_db (chunker indexed_store)
      ([] @ take 0 [QueryNearText 10 ''my question'' []])
      ([QueryNearText 10 ''my question'' []] ! 0) = Some (Raised ''timed out'')"
    by (simp add: failing_db_def)
  have "\<exists>calls. snd (snd ?r) = [] @ calls \<and>
      (\<forall>n e. n < length calls \<longrightarrow>
         raised failing_db (chunker indexed_store) ([] @ take n calls) (calls ! n) = Some e \<longrightarrow>
         Suc n = length calls \<and> fst ?r = Inl e)"
    by (rule exceptions_propagate [of failing_db indexed_store _ "[]" "[]" _ _ _
          "''my question''" "fst ?r" "fst (snd ?r)" "snd (snd ?r)", THEN conjunct2, THEN mp])
      simp
  then have "\<forall>n e. n < length [QueryNearText 10 ''my question'' []] \<longrightarrow>
      raised failing_db (chunker indexed_store)
        ([] @ take n [QueryNearText 10 ''my question'' []])
        ([QueryNearText 10 ''my question'' []] ! n) = Some e \<longrightarrow>
      Suc n = length [QueryNearText 10 ''my question'' []] \<and> fst ?r = Inl e"
    by (simp only: wr append_Nil) blast
  then have "0 < length [QueryNearText 10 ''my question'' []] \<longrightarrow>
      raised failing_db (chunker indexed_store)
        ([] @ take 0 [QueryNearText 10 ''my question'' []])
        ([QueryNearText 10 ''my question'' []] ! 0) = Some (Raised ''timed out'') \<longrightarrow>
      Suc 0 = length [QueryNearText 10 ''my question'' []]
      \<and> fst ?r = Inl (Raised ''timed out'')"
    by blast
  then have fr: "fst ?r = Inl (Raised ''timed out'')"
    using rr by simp
  have ra': "raised failing_db (chunker my_store)
       [ConnectToLocal [(''port'', ''8080'')], CollectionsExists 1 (Some ''my-store-0001''),
        CollectionsCreate 1 [(''name'', ''my-store-0001'')]]
       (DataInsert 10 [(''text'', ''alpha'')] ''a'' []) = Some (Raised ''disk full'')"
    by (simp add: failing_db_def)
  have rr': "raised failing_db (chunker my_store) [] (QueryNearText 10 ''my question'' []) =
     Some (Raised ''timed out'')"
    by (simp add: failing_db_def)
  from wa ra' fa wr rr' fr show ?thesis
    by (intro conjI)
qed

end
